theory Spec2Isabelle
  imports Main
begin

section \<open>Python strings\<close>

text \<open>
  The script \<^verbatim>\<open>py/kubeflow/kubeflow/ci/update_jupyter_web_app.py\<close> runs under Python 3, so
  its strings are sequences of code points. A string is modelled as a HOL \<open>string\<close>, one
  \<open>char\<close> per code point, which covers the code points below 256. On a \<^verbatim>\<open>str\<close> pattern
  the class \<^verbatim>\<open>\s\<close> of the \<^verbatim>\<open>re\<close> module is \<^verbatim>\<open>str.isspace\<close>; below 256 it holds for the
  code points 9 to 13, 28 to 32, 133 and 160.
\<close>

definition whitespace :: "char list" where
  "whitespace =
     [CHR 0x09, CHR 0x0A, CHR 0x0B, CHR 0x0C, CHR 0x0D, CHR 0x1C, CHR 0x1D, CHR 0x1E,
      CHR 0x1F, CHR 0x20, CHR 0x85, CHR 0xA0]"

definition isspace :: "char \<Rightarrow> bool" where
  "isspace c = (c \<in> set whitespace)"

definition nonspace :: "char \<Rightarrow> bool" where
  "nonspace c = (\<not> isspace c)"

text \<open>
  \<^verbatim>\<open>re.findall(r'\S+', line)\<close>: scanning from the left, skip to the next character that is
  not whitespace, take the longest run of such characters as a match, and go on behind it.
\<close>

function findall_nonspace :: "string \<Rightarrow> string list" where
  "findall_nonspace s =
     (case dropWhile isspace s of
        [] \<Rightarrow> []
      | c # cs \<Rightarrow> (c # takeWhile nonspace cs) # findall_nonspace (dropWhile nonspace cs))"
  by pat_completeness auto
termination
proof (relation "measure length")
  show "wf (measure length)" by simp
next
  fix s :: string and c cs
  assume eq: "dropWhile isspace s = c # cs"
  have "length (dropWhile nonspace cs) \<le> length cs"
    by (rule length_dropWhile_le)
  also have "length cs < length (dropWhile isspace s)"
    by (simp add: eq)
  also have "length (dropWhile isspace s) \<le> length s"
    by (rule length_dropWhile_le)
  finally show "(dropWhile nonspace cs, s) \<in> measure length"
    by simp
qed

declare findall_nonspace.simps [simp del]

text \<open>\<^verbatim>\<open>sep.join(pieces)\<close>.\<close>

fun join :: "string \<Rightarrow> string list \<Rightarrow> string" where
  "join sep [] = []"
| "join sep [x] = x"
| "join sep (x # y # ys) = x @ sep @ join sep (y # ys)"

text \<open>\<^verbatim>\<open>s.split(sep)\<close> for a separator of one character: never an empty list.\<close>

fun split :: "char \<Rightarrow> string \<Rightarrow> string list" where
  "split sep [] = [[]]"
| "split sep (c # cs) =
     (if c = sep then [] # split sep cs
      else (case split sep cs of [] \<Rightarrow> [[c]] | t # ts \<Rightarrow> (c # t) # ts))"

text \<open>
  \<^verbatim>\<open>s.split(sep, 1)\<close>: at most one split, at the first separator; \<^verbatim>\<open>[0]\<close> and \<^verbatim>\<open>[-1]\<close>
  of the result are \<open>hd\<close> and \<open>last\<close> of a list that is never empty.
\<close>

definition split1 :: "char \<Rightarrow> string \<Rightarrow> string list" where
  "split1 sep s =
     (if sep \<in> set s then [takeWhile (\<lambda>c. c \<noteq> sep) s, tl (dropWhile (\<lambda>c. c \<noteq> sep) s)]
      else [s])"

text \<open>\<^verbatim>\<open>s.startswith(p)\<close> and \<^verbatim>\<open>s.strip(c)\<close> for one character \<open>c\<close>.\<close>

definition startswith :: "string \<Rightarrow> string \<Rightarrow> bool" where
  "startswith s p = (take (length p) s = p)"

definition strip :: "char \<Rightarrow> string \<Rightarrow> string" where
  "strip c s = rev (dropWhile (\<lambda>x. x = c) (rev (dropWhile (\<lambda>x. x = c) s)))"

text \<open>
  \<^verbatim>\<open>s.splitlines()\<close>: the line boundaries below code point 256 are \<^verbatim>\<open>\n\<close>, \<^verbatim>\<open>\r\<close>,
  \<^verbatim>\<open>\r\n\<close> (one boundary), \<^verbatim>\<open>\v\<close>, \<^verbatim>\<open>\f\<close>, the separators 28 to 30 and 133. The breaks
  are dropped, and a break at the very end opens no further line.
\<close>

definition linebreak :: "char \<Rightarrow> bool" where
  "linebreak c =
     (c \<in> set [CHR 0x0A, CHR 0x0D, CHR 0x0B, CHR 0x0C, CHR 0x1C, CHR 0x1D, CHR 0x1E, CHR 0x85])"

fun splitlines_from :: "string \<Rightarrow> string \<Rightarrow> string list" where
  "splitlines_from cur [] = (if cur = [] then [] else [cur])"
| "splitlines_from cur [c] = (if linebreak c then [cur] else [cur @ [c]])"
| "splitlines_from cur (c # d # cs) =
     (if c = CHR 0x0D \<and> d = CHR 0x0A then cur # splitlines_from [] cs
      else if linebreak c then cur # splitlines_from [] (d # cs)
      else splitlines_from (cur @ [c]) (d # cs))"

definition splitlines :: "string \<Rightarrow> string list" where
  "splitlines s = splitlines_from [] s"

text \<open>
  Reading a file opened in text mode (\<^verbatim>\<open>open(path)\<close>, universal newlines): every
  \<^verbatim>\<open>\r\n\<close> and every other \<^verbatim>\<open>\r\<close> of the stored text arrives as \<^verbatim>\<open>\n\<close>. Writing in text
  mode on POSIX stores the text as it is.
\<close>

fun universal_newlines :: "string \<Rightarrow> string" where
  "universal_newlines [] = []"
| "universal_newlines [c] = (if c = CHR 0x0D then [CHR 0x0A] else [c])"
| "universal_newlines (c # d # cs) =
     (if c = CHR 0x0D \<and> d = CHR 0x0A then CHR 0x0A # universal_newlines cs
      else if c = CHR 0x0D then CHR 0x0A # universal_newlines (d # cs)
      else c # universal_newlines (d # cs))"

text \<open>\<^verbatim>\<open>os.path.join(a, b)\<close> on POSIX.\<close>

definition os_path_join :: "string \<Rightarrow> string \<Rightarrow> string" where
  "os_path_join a b =
     (if b \<noteq> [] \<and> hd b = CHR ''/'' then b
      else if a = [] \<or> last a = CHR ''/'' then a @ b
      else a @ ''/'' @ b)"


section \<open>The parameter patcher: \<^verbatim>\<open>WebAppUpdater._replace_parameters\<close>\<close>

text \<open>
  The dictionaries \<^verbatim>\<open>values\<close> and \<^verbatim>\<open>old\<close> are maps from parameter names to strings.
  \<open>replace_step\<close> is the body of the loop over \<^verbatim>\<open>enumerate(lines)\<close>: it returns the line
  to store at the current index and the updated \<^verbatim>\<open>old\<close>; each \<^verbatim>\<open>continue\<close> leaves both
  as they are. The reads \<^verbatim>\<open>pieces[0]\<close>, \<^verbatim>\<open>pieces[1]\<close>, \<^verbatim>\<open>pieces[2]\<close> and
  \<^verbatim>\<open>pieces[4]\<close> happen behind the length test, so the body has no raising branch.
\<close>

definition replace_step ::
  "(string \<rightharpoonup> string) \<Rightarrow> string \<Rightarrow> (string \<rightharpoonup> string) \<Rightarrow> string \<times> (string \<rightharpoonup> string)" where
  "replace_step values line old =
     (let pieces = findall_nonspace line in
      if length pieces < 5 then (line, old)
      else if pieces ! 0 \<noteq> ''//'' \<or> pieces ! 1 \<noteq> ''@optionalParam'' then (line, old)
      else
        (let param_name = pieces ! 2 in
         case values param_name of
           None \<Rightarrow> (line, old)
         | Some v \<Rightarrow> (join '' '' (pieces[4 := v]), old(param_name \<mapsto> pieces ! 4))))"

fun replace_loop ::
  "(string \<rightharpoonup> string) \<Rightarrow> string list \<Rightarrow> (string \<rightharpoonup> string) \<Rightarrow>
     string list \<times> (string \<rightharpoonup> string)" where
  "replace_loop values [] old = ([], old)"
| "replace_loop values (line # rest) old =
     (let (line', old1) = replace_step values line old;
          (rest', old2) = replace_loop values rest old1
      in (line' # rest', old2))"

definition replace_parameters ::
  "string list \<Rightarrow> (string \<rightharpoonup> string) \<Rightarrow> string list \<times> (string \<rightharpoonup> string)" where
  "replace_parameters lines values = replace_loop values lines Map.empty"

text \<open>
  Two notions used to state properties of the patcher. A line matches the recognised
  pattern with a parameter name when it passes both tests of the loop and its third
  token is that name. A string is a single token when it is not empty and holds no
  whitespace.
\<close>

definition recognized :: "string \<Rightarrow> string \<Rightarrow> bool" where
  "recognized name line =
     (let pieces = findall_nonspace line in
      5 \<le> length pieces \<and> pieces ! 0 = ''//'' \<and> pieces ! 1 = ''@optionalParam'' \<and>
      pieces ! 2 = name)"

definition single_token :: "string \<Rightarrow> bool" where
  "single_token v = (v \<noteq> [] \<and> list_all nonspace v)"

section \<open>The world of a run\<close>

text \<open>
  Everything outside the script is a field of the world. The inputs the run reads are
  the outputs of the commands it calls (\<^verbatim>\<open>git log\<close>, \<^verbatim>\<open>ssh-keyscan\<close>,
  \<^verbatim>\<open>hub pr list\<close>), the registry's answer to a manifest fetch, and the outcome of
  \<^verbatim>\<open>make build-gcb\<close> with the parsed document it leaves at \<^verbatim>\<open>OUTPUT\<close>. What the run
  changes is the memoised \<^verbatim>\<open>_last_commit\<close>, the files (the prototype file and
  \<^verbatim>\<open>known_hosts\<close>), the repository's remotes and branches, and the trace: the list of
  the commands and remote operations performed, in order. Temporary files are not kept
  in \<open>files\<close>; the pull request's message file is the title carried by its action.
  Commands run through \<^verbatim>\<open>util.run\<close> other than the build are taken to succeed, as are
  \<^verbatim>\<open>git.Repo\<close>, \<^verbatim>\<open>docker_name.from_string\<close> and the credential lookup. Adding a remote
  can fail: \<^verbatim>\<open>git remote add\<close> refuses a name that a remote of the repository already has
  and a name that is not well-formed; which names git takes as well-formed is an input
  (\<open>valid_remote_name\<close>).
\<close>

datatype error =
    ValueError
  | KeyError
  | FileNotFoundError
  | CalledProcessError
  | GitCommandError
  | V2DiagnosticException nat
  | RegistryException

datatype action =
    ActivateServiceAccount
  | GitLog
  | SshKeyscan
  | CreateRemote string string
  | FetchManifest string
  | MakeBuildGcb string string "string option"
  | GitCheckout string
  | GitCheckoutNew string
  | HubPrList
  | IndexAdd string
  | IndexCommit string
  | GitPush string
  | HubPullRequest string string

text \<open>
  A manifest fetch finds the image (with its digest), raises
  \<^verbatim>\<open>V2DiagnosticException\<close> with an HTTP status, or raises something else.
\<close>

datatype fetch_result = Found string | Diagnostic nat | OtherException

datatype build_result = MakeFailed | NoOutput | Output "string \<rightharpoonup> string"

record remote =
  rname :: string
  urls :: "string list"

record world =
  root_dir :: string
  home :: string
  cached_commit :: "string option"
  git_log_output :: string
  keyscan_output :: string
  files :: "string \<rightharpoonup> string"
  remotes :: "remote list"
  valid_remote_name :: "string \<Rightarrow> bool"
  registry :: "string \<Rightarrow> fetch_result"
  gcb_build :: build_result
  active_branch :: string
  branches :: "string list"
  pr_list_output :: string
  trace :: "action list"

definition emit :: "action \<Rightarrow> world \<Rightarrow> world" where
  "emit a w = w\<lparr>trace := trace w @ [a]\<rparr>"

section \<open>The methods of \<^verbatim>\<open>WebAppUpdater\<close>\<close>

text \<open>
  \<^verbatim>\<open>build_image\<close>: \<^verbatim>\<open>GIT_TAG\<close> is the field \<^verbatim>\<open>_last_commit\<close> itself, not the property.
  A failing \<^verbatim>\<open>make\<close> raises in \<^verbatim>\<open>util.run\<close>, a missing output file in \<^verbatim>\<open>open\<close>, a
  document without the key in \<^verbatim>\<open>data["image"]\<close>.
\<close>

definition build_image :: "string \<Rightarrow> string \<Rightarrow> world \<Rightarrow> (error + string) \<times> world" where
  "build_image build_project registry_project w =
     (let w1 = emit (MakeBuildGcb build_project registry_project (cached_commit w)) w in
      case gcb_build w of
        MakeFailed \<Rightarrow> (Inl CalledProcessError, w1)
      | NoOutput \<Rightarrow> (Inl FileNotFoundError, w1)
      | Output data \<Rightarrow>
          (case data ''image'' of
             None \<Rightarrow> (Inl KeyError, w1)
           | Some img \<Rightarrow> (Inr img, w1)))"

definition prototype_file :: "world \<Rightarrow> string" where
  "prototype_file w =
     os_path_join (os_path_join (root_dir w) ''kubeflow/jupyter/prototypes'')
       ''jupyter-web-app.jsonnet''"

text \<open>
  \<^verbatim>\<open>update_prototype\<close>: \<open>Inr None\<close> is the return value \<^verbatim>\<open>None\<close>. The file is read in
  text mode, so the lines are those of the text after the translation of newlines. The
  write goes to the temporary file, which is then renamed over the prototype file.
\<close>

definition update_prototype :: "string \<Rightarrow> world \<Rightarrow> (error + string option) \<times> world" where
  "update_prototype img w =
     (let values = [''image'' \<mapsto> img];
          pf = prototype_file w
      in case files w pf of
           None \<Rightarrow> (Inl FileNotFoundError, w)
         | Some stored \<Rightarrow>
             (let prototype = split CHR 0x0A (universal_newlines stored);
                  (new_lines, old_values) = replace_parameters prototype values
              in
              case old_values ''image'' of
                None \<Rightarrow> (Inl KeyError, w)
              | Some old_image \<Rightarrow>
                  if old_image = img then (Inr None, w)
                  else
                    (let temp_file = pf @ ''.tmp'';
                         written = (files w)(temp_file \<mapsto> join [CHR 0x0A] new_lines)
                     in (Inr (Some pf),
                         w\<lparr>files := written(pf := written temp_file, temp_file := None)\<rparr>))))"

text \<open>
  The property \<^verbatim>\<open>last_commit\<close>: \<^verbatim>\<open>not self._last_commit\<close> holds for \<^verbatim>\<open>None\<close> and for the
  empty string, and then \<^verbatim>\<open>git log\<close> runs.
\<close>

definition last_commit :: "world \<Rightarrow> string \<times> world" where
  "last_commit w =
     (case cached_commit w of
        Some (c # cs) \<Rightarrow> (c # cs, w)
      | _ \<Rightarrow>
          (let out = strip CHR 0x22 (git_log_output w) in
           (out, (emit GitLog w)\<lparr>cached_commit := Some out\<rparr>)))"

definition find_remote_repo :: "remote list \<Rightarrow> string \<Rightarrow> remote option" where
  "find_remote_repo rs remote_url = find (\<lambda>r. remote_url \<in> set (urls r)) rs"

text \<open>
  \<^verbatim>\<open>repo.create_remote(name, url)\<close> runs \<^verbatim>\<open>git remote add\<close> and raises
  \<^verbatim>\<open>GitCommandError\<close> when git refuses the name.
\<close>

definition create_remote :: "string \<Rightarrow> string \<Rightarrow> world \<Rightarrow> (error + remote) \<times> world" where
  "create_remote fork_name url w =
     (let w1 = emit (CreateRemote fork_name url) w;
          r = \<lparr>rname = fork_name, urls = [url]\<rparr>
      in if \<not> valid_remote_name w fork_name \<or> fork_name \<in> set (map rname (remotes w))
         then (Inl GitCommandError, w1)
         else (Inr r, w1\<lparr>remotes := remotes w @ [r]\<rparr>))"

definition pr_title :: "string \<Rightarrow> string" where
  "pr_title commit = ''[auto PR] Update the jupyter-web-app image to '' @ commit"

text \<open>
  The loop of \<^verbatim>\<open>_check_if_pr_exists\<close> over the lines of the listing: the unpacking
  \<^verbatim>\<open>n, t = l.split(";", 1)\<close> raises \<^verbatim>\<open>ValueError\<close> on a line without a semicolon.
\<close>

fun pr_loop :: "string list \<Rightarrow> (string \<rightharpoonup> string) \<Rightarrow> error + (string \<rightharpoonup> string)" where
  "pr_loop [] prs = Inr prs"
| "pr_loop (l # ls) prs =
     (case split1 CHR '';'' l of
        [n, t] \<Rightarrow> pr_loop ls (prs(t \<mapsto> n))
      | _ \<Rightarrow> Inl ValueError)"

definition check_if_pr_exists :: "string option \<Rightarrow> world \<Rightarrow> (error + bool) \<times> world" where
  "check_if_pr_exists commit w =
     (let (commit', w1) = (case commit of Some (c # cs) \<Rightarrow> (c # cs, w) | _ \<Rightarrow> last_commit w);
          title = pr_title commit';
          w2 = emit HubPrList w1
      in case pr_loop (splitlines (pr_list_output w2)) Map.empty of
           Inl e \<Rightarrow> (Inl e, w2)
         | Inr prs \<Rightarrow> (Inr (prs title \<noteq> None), w2))"

definition create_pull_request :: "string \<Rightarrow> string \<Rightarrow> world \<Rightarrow> world" where
  "create_pull_request base commit w = emit (HubPullRequest base (pr_title commit)) w"

definition git_checkout :: "string \<Rightarrow> world \<Rightarrow> world" where
  "git_checkout b w = (emit (GitCheckout b) w)\<lparr>active_branch := b\<rparr>"

definition git_checkout_b :: "string \<Rightarrow> world \<Rightarrow> world" where
  "git_checkout_b b w = (emit (GitCheckoutNew b) w)\<lparr>active_branch := b, branches := branches w @ [b]\<rparr>"

definition known_hosts_file :: "world \<Rightarrow> string" where
  "known_hosts_file w = os_path_join (os_path_join (home w) ''.ssh'') ''known_hosts''"

section \<open>The method \<^verbatim>\<open>all\<close>\<close>

text \<open>
  \<^verbatim>\<open>all\<close> is given in three parts, in the order of the source. \<open>all_setup\<close> is the
  part up to the remote (lines 175 to 196): it returns the local \<^verbatim>\<open>last_commit\<close> and
  \<^verbatim>\<open>remote_repo\<close>. The append to \<^verbatim>\<open>known_hosts\<close> comes before the test of the fork's URL.
\<close>

definition all_setup :: "string \<Rightarrow> bool \<Rightarrow> world \<Rightarrow> (error + string \<times> remote) \<times> world" where
  "all_setup remote_fork add_github_host w0 =
     (let w1 = emit ActivateServiceAccount w0;
          (commit, w2) = last_commit w1;
          w3 = (if add_github_host then
                  (let w' = emit SshKeyscan w2;
                       hf = known_hosts_file w';
                       before = (case files w' hf of None \<Rightarrow> [] | Some t \<Rightarrow> t)
                   in w'\<lparr>files := (files w')(hf \<mapsto> before @ keyscan_output w')\<rparr>)
                else w2)
      in if \<not> startswith remote_fork ''git@github.com'' then (Inl ValueError, w3)
         else
           (case find_remote_repo (remotes w3) remote_fork of
              Some r \<Rightarrow> (Inr (commit, r), w3)
            | None \<Rightarrow>
                (let fork_name = hd (split1 CHR ''/'' (last (split1 CHR '':'' remote_fork)))
                 in case create_remote fork_name remote_fork w3 of
                      (Inl e, w4) \<Rightarrow> (Inl e, w4)
                    | (Inr r, w4) \<Rightarrow> (Inr (commit, r), w4))))"

text \<open>
  \<open>all_image\<close> is the image resolver (lines 198 to 223): it returns the image handed
  to \<^verbatim>\<open>update_prototype\<close>. Only a \<^verbatim>\<open>V2DiagnosticException\<close> is caught, and only status
  404 is not raised again.
\<close>

definition all_image :: "string \<Rightarrow> string \<Rightarrow> world \<Rightarrow> (error + string) \<times> world" where
  "all_image build_project registry_project w0 =
     (let base = ''gcr.io/'' @ registry_project @ ''/jupyter-web-app'';
          (commit, w1) = last_commit w0;
          img = base @ '':'' @ commit;
          w2 = emit (FetchManifest img) w1
      in case (case registry w2 img of
                 Found digest \<Rightarrow> Inr True
               | Diagnostic status \<Rightarrow>
                   if status = 404 then Inr False else Inl (V2DiagnosticException status)
               | OtherException \<Rightarrow> Inl RegistryException) of
           Inl e \<Rightarrow> (Inl e, w2)
         | Inr image_exists \<Rightarrow>
             if \<not> image_exists then build_image build_project registry_project w2
             else (Inr img, w2))"

text \<open>
  \<open>all_publish\<close> is the rest (lines 227 to 260). The branch is checked out before
  the open pull requests are listed.
\<close>

definition all_publish :: "string \<Rightarrow> remote \<Rightarrow> string \<Rightarrow> world \<Rightarrow> (error + unit) \<times> world" where
  "all_publish commit remote_repo img w0 =
     (case update_prototype img w0 of
        (Inl e, w1) \<Rightarrow> (Inl e, w1)
      | (Inr None, w1) \<Rightarrow> (Inr (), w1)
      | (Inr (Some []), w1) \<Rightarrow> (Inr (), w1)
      | (Inr (Some pf), w1) \<Rightarrow>
          (let branch_name = ''update_jupyter_'' @ commit;
               w2 = (if active_branch w1 \<noteq> branch_name then
                       (if branch_name \<in> set (branches w1) then git_checkout branch_name w1
                        else git_checkout_b branch_name w1)
                     else w1)
           in case check_if_pr_exists (Some commit) w2 of
                (Inl e, w3) \<Rightarrow> (Inl e, w3)
              | (Inr True, w3) \<Rightarrow> (Inr (), w3)
              | (Inr False, w3) \<Rightarrow>
                  (let w4 = emit (IndexAdd pf) w3;
                       w5 = emit (IndexCommit (''Update the jupyter web app image to '' @ img)) w4;
                       w6 = emit (GitPush (rname remote_repo)) w5
                   in (Inr (), create_pull_request ''kubeflow:master'' commit w6))))"

definition all_run ::
  "string \<Rightarrow> string \<Rightarrow> string \<Rightarrow> bool \<Rightarrow> world \<Rightarrow> (error + unit) \<times> world" where
  "all_run build_project registry_project remote_fork add_github_host w0 =
     (case all_setup remote_fork add_github_host w0 of
        (Inl e, w1) \<Rightarrow> (Inl e, w1)
      | (Inr (commit, remote_repo), w1) \<Rightarrow>
          (case all_image build_project registry_project w1 of
             (Inl e, w2) \<Rightarrow> (Inl e, w2)
           | (Inr img, w2) \<Rightarrow> all_publish commit remote_repo img w2))"

section \<open>Reading a trace\<close>

text \<open>
  The actions a property speaks about: an invocation of the build, the query of the open
  pull requests, and the publishing steps (staging and commit, push, creation of the pull
  request). A run performs none of a kind when the trace holds as many of them after the
  run as before.
\<close>

fun is_build :: "action \<Rightarrow> bool" where
  "is_build (MakeBuildGcb _ _ _) = True"
| "is_build _ = False"

fun is_pr_query :: "action \<Rightarrow> bool" where
  "is_pr_query HubPrList = True"
| "is_pr_query _ = False"

fun is_publish :: "action \<Rightarrow> bool" where
  "is_publish (IndexAdd _) = True"
| "is_publish (IndexCommit _) = True"
| "is_publish (GitPush _) = True"
| "is_publish (HubPullRequest _ _) = True"
| "is_publish _ = False"

definition builds :: "world \<Rightarrow> action list" where
  "builds w = filter is_build (trace w)"

definition pr_queries :: "world \<Rightarrow> action list" where
  "pr_queries w = filter is_pr_query (trace w)"

definition published :: "world \<Rightarrow> action list" where
  "published w = filter is_publish (trace w)"

text \<open>
  The candidate reference of the image resolver, and the titles of the records
  \<^verbatim>\<open>identifier;title\<close> in the output of \<^verbatim>\<open>hub pr list\<close>.
\<close>

definition candidate :: "string \<Rightarrow> world \<Rightarrow> string" where
  "candidate registry_project w =
     ''gcr.io/'' @ registry_project @ ''/jupyter-web-app'' @ '':'' @ fst (last_commit w)"

definition listed_titles :: "string \<Rightarrow> string list" where
  "listed_titles out =
     map (\<lambda>l. tl (dropWhile (\<lambda>c. c \<noteq> CHR '';'') l))
       (filter (\<lambda>l. CHR '';'' \<in> set l) (splitlines out))"

section \<open>A sample world\<close>

text \<open>
  Revision \<^verbatim>\<open>abc123\<close>, no image in the registry yet, a build that yields the image of
  that revision, a prototype file that names an older image, no remote for the fork and
  no open pull request.
\<close>

definition sample_prototype :: string where
  "sample_prototype =
     ''// @apiVersion 0.1'' @ [CHR 0x0A] @
     ''// @optionalParam image string gcr.io/proj/jupyter-web-app:old000 The  image''
       @ [CHR 0x0A] @
     ''local k = 1;''"

definition sample_world :: world where
  "sample_world =
     \<lparr>root_dir = ''/src'',
      home = ''/root'',
      cached_commit = None,
      git_log_output = [CHR 0x22] @ ''abc123'' @ [CHR 0x22],
      keyscan_output = ''github.com ssh-rsa AAAA'',
      files = [''/src/kubeflow/jupyter/prototypes/jupyter-web-app.jsonnet'' \<mapsto> sample_prototype],
      remotes = [],
      valid_remote_name = (\<lambda>name. name \<noteq> []),
      registry = (\<lambda>_. Diagnostic 404),
      gcb_build = Output [''image'' \<mapsto> ''gcr.io/proj/jupyter-web-app:abc123''],
      active_branch = ''master'',
      branches = [''master''],
      pr_list_output = [],
      trace = []\<rparr>"

text \<open>
  Variations: the prototype file already names the image of the revision and the registry
  has it; a pull request for the revision is open; the registry answers with status 500.
\<close>

definition up_to_date_world :: world where
  "up_to_date_world =
     sample_world
       \<lparr>files := [''/src/kubeflow/jupyter/prototypes/jupyter-web-app.jsonnet'' \<mapsto>
          ''// @optionalParam image string gcr.io/proj/jupyter-web-app:abc123 The image''],
        registry := (\<lambda>_. Found ''sha256:0'')\<rparr>"

definition pr_open_world :: world where
  "pr_open_world =
     sample_world
       \<lparr>pr_list_output :=
          ''https://github.com/kubeflow/kubeflow/pull/1;'' @
          ''[auto PR] Update the jupyter-web-app image to abc123'' @ [CHR 0x0A]\<rparr>"

definition registry_down_world :: world where
  "registry_down_world = sample_world\<lparr>registry := (\<lambda>_. Diagnostic 500)\<rparr>"

section \<open>Tokens\<close>

lemma findall_nonspace_Nil [simp]: "findall_nonspace [] = []"
  by (simp add: findall_nonspace.simps)

lemma findall_nonspace_space [simp]:
  "isspace c \<Longrightarrow> findall_nonspace (c # cs) = findall_nonspace cs"
  by (subst findall_nonspace.simps, subst (2) findall_nonspace.simps) simp

lemma findall_nonspace_nonspace:
  "\<not> isspace c \<Longrightarrow>
   findall_nonspace (c # cs) = (c # takeWhile nonspace cs) # findall_nonspace (dropWhile nonspace cs)"
  by (subst findall_nonspace.simps) simp

lemma isspace_blank [simp]: "isspace CHR '' ''"
  by (simp add: isspace_def whitespace_def)

lemma findall_nonspace_clean:
  "t \<in> set (findall_nonspace s) \<Longrightarrow> t \<noteq> [] \<and> (\<forall>c\<in>set t. nonspace c)"
proof (induction s rule: findall_nonspace.induct)
  case (1 s)
  show ?case
  proof (cases "dropWhile isspace s")
    case Nil
    with "1.prems" show ?thesis
      by (simp add: findall_nonspace.simps)
  next
    case (Cons c cs)
    have c: "nonspace c"
      using hd_dropWhile [of isspace s] Cons by (simp add: nonspace_def)
    from "1.prems" Cons
    have "t = c # takeWhile nonspace cs \<or> t \<in> set (findall_nonspace (dropWhile nonspace cs))"
      by (subst (asm) findall_nonspace.simps) simp
    then show ?thesis
    proof
      assume "t = c # takeWhile nonspace cs"
      with c show ?thesis
        by (auto dest: set_takeWhileD)
    next
      assume "t \<in> set (findall_nonspace (dropWhile nonspace cs))"
      with "1.IH" Cons show ?thesis by blast
    qed
  qed
qed

lemma findall_nonspace_token:
  assumes "t \<noteq> []" and "\<forall>c\<in>set t. nonspace c" and "rest = [] \<or> isspace (hd rest)"
  shows "findall_nonspace (t @ rest) = t # findall_nonspace rest"
proof -
  from assms(1) obtain c cs where t: "t = c # cs"
    by (cases t) auto
  from assms(2) t have c: "\<not> isspace c" and cs: "\<forall>x\<in>set cs. nonspace x"
    by (auto simp: nonspace_def)
  have tw: "takeWhile nonspace (cs @ rest) = cs"
    using cs assms(3) by (cases rest) (auto simp: takeWhile_append2 nonspace_def)
  have dw: "dropWhile nonspace (cs @ rest) = rest"
    using cs assms(3) by (cases rest) (auto simp: dropWhile_append2 nonspace_def)
  show ?thesis
    using c tw dw by (simp add: t findall_nonspace_nonspace)
qed

lemma findall_nonspace_join:
  "\<forall>t\<in>set ts. t \<noteq> [] \<and> (\<forall>c\<in>set t. nonspace c) \<Longrightarrow> findall_nonspace (join '' '' ts) = ts"
proof (induction ts)
  case Nil
  show ?case by simp
next
  case (Cons x ts)
  then have x: "x \<noteq> []" "\<forall>c\<in>set x. nonspace c"
    by simp_all
  show ?case
  proof (cases ts)
    case Nil
    then show ?thesis
      using findall_nonspace_token [OF x, of "[]"] by simp
  next
    case (Cons y ys)
    have "findall_nonspace (x @ '' '' @ join '' '' ts) = x # findall_nonspace ('' '' @ join '' '' ts)"
      using x by (intro findall_nonspace_token) simp_all
    also have "\<dots> = x # ts"
      using Cons.IH Cons.prems by simp
    finally show ?thesis
      by (simp add: Cons)
  qed
qed


lemma single_token_iff: "single_token v \<longleftrightarrow> v \<noteq> [] \<and> (\<forall>c\<in>set v. nonspace c)"
  by (simp add: single_token_def list_all_iff)

lemma findall_nonspace_single_token: "t \<in> set (findall_nonspace s) \<Longrightarrow> single_token t"
  using findall_nonspace_clean [of t s] by (simp add: single_token_iff)

lemma findall_nonspace_join_tokens:
  "\<forall>t\<in>set ts. single_token t \<Longrightarrow> findall_nonspace (join '' '' ts) = ts"
  by (rule findall_nonspace_join) (simp add: single_token_iff)

subsection \<open>One step of the loop\<close>

lemma replace_step_skip:
  "\<not> (5 \<le> length (findall_nonspace line) \<and> findall_nonspace line ! 0 = ''//'' \<and>
      findall_nonspace line ! 1 = ''@optionalParam'') \<Longrightarrow>
   replace_step values line old = (line, old)"
  by (auto simp: replace_step_def Let_def)

lemma replace_step_absent:
  "values (findall_nonspace line ! 2) = None \<Longrightarrow> replace_step values line old = (line, old)"
  by (simp add: replace_step_def Let_def)

lemma replace_step_hit:
  "5 \<le> length (findall_nonspace line) \<Longrightarrow> findall_nonspace line ! 0 = ''//'' \<Longrightarrow>
   findall_nonspace line ! 1 = ''@optionalParam'' \<Longrightarrow>
   values (findall_nonspace line ! 2) = Some v \<Longrightarrow>
   replace_step values line old =
     (join '' '' ((findall_nonspace line)[4 := v]),
      old(findall_nonspace line ! 2 \<mapsto> findall_nonspace line ! 4))"
  by (simp add: replace_step_def Let_def)

lemma fst_replace_step_old:
  "fst (replace_step values line old) = fst (replace_step values line old')"
  by (simp add: replace_step_def Let_def split: option.splits)

lemma snd_replace_step:
  "snd (replace_step values line old) k =
     (if recognized k line \<and> values k \<noteq> None then Some (findall_nonspace line ! 4) else old k)"
  by (auto simp: replace_step_def recognized_def Let_def split: option.splits)

subsection \<open>The loop\<close>

lemma fst_replace_loop:
  "fst (replace_loop values lines old) = map (\<lambda>l. fst (replace_step values l Map.empty)) lines"
proof (induction lines arbitrary: old)
  case Nil
  show ?case by simp
next
  case (Cons l ls)
  have "fst (replace_step values l old) = fst (replace_step values l Map.empty)"
    by (rule fst_replace_step_old)
  with Cons.IH show ?case
    by (simp add: split_beta Let_def)
qed

lemma snd_replace_loop:
  "snd (replace_loop values lines old) = fold (\<lambda>l m. snd (replace_step values l m)) lines old"
  by (induction lines arbitrary: old) (simp_all add: split_beta Let_def)

lemma snd_replace_loop_snoc:
  "snd (replace_loop values (ls @ [l]) old) =
     snd (replace_step values l (snd (replace_loop values ls old)))"
  by (simp add: snd_replace_loop)

lemma snd_replace_loop_key:
  "snd (replace_loop values lines old) k =
     (if values k = None \<or> filter (recognized k) lines = [] then old k
      else Some (findall_nonspace (last (filter (recognized k) lines)) ! 4))"
proof (induction lines rule: rev_induct)
  case Nil
  show ?case by simp
next
  case (snoc l ls)
  show ?case
    unfolding snd_replace_loop_snoc snd_replace_step
    using snoc.IH by simp
qed

lemma length_replace_parameters:
  "length (fst (replace_parameters lines values)) = length lines"
  by (simp add: replace_parameters_def fst_replace_loop)

lemma nth_replace_parameters:
  "i < length lines \<Longrightarrow>
   fst (replace_parameters lines values) ! i = fst (replace_step values (lines ! i) Map.empty)"
  by (simp add: replace_parameters_def fst_replace_loop)

lemma replace_step_twice:
  assumes clean: "\<forall>v\<in>ran values. single_token v"
  shows "fst (replace_step values (fst (replace_step values line old)) old') =
         fst (replace_step values line old)"
proof (cases "5 \<le> length (findall_nonspace line) \<and> findall_nonspace line ! 0 = ''//'' \<and>
    findall_nonspace line ! 1 = ''@optionalParam''")
  case False
  then have "replace_step values line old = (line, old)"
    by (rule replace_step_skip)
  moreover from False have "replace_step values line old' = (line, old')"
    by (rule replace_step_skip)
  ultimately show ?thesis by simp
next
  case True
  show ?thesis
  proof (cases "values (findall_nonspace line ! 2)")
    case None
    then show ?thesis
      by (simp add: replace_step_absent)
  next
    case (Some v)
    define ps where "ps = (findall_nonspace line)[4 := v]"
    have v: "single_token v"
      using clean Some by (auto simp: ran_def)
    have "set ps \<subseteq> insert v (set (findall_nonspace line))"
      unfolding ps_def by (rule set_update_subset_insert)
    then have "\<forall>t\<in>set ps. single_token t"
      using v findall_nonspace_single_token by blast
    then have toks: "findall_nonspace (join '' '' ps) = ps"
      by (rule findall_nonspace_join_tokens)
    have first: "replace_step values line old =
        (join '' '' ps, old(findall_nonspace line ! 2 \<mapsto> findall_nonspace line ! 4))"
      unfolding ps_def using True Some by (simp add: replace_step_hit)
    have "replace_step values (join '' '' ps) old' =
        (join '' '' (ps[4 := v]), old'(ps ! 2 \<mapsto> ps ! 4))"
      using True Some
      by (subst replace_step_hit [where v = v]) (simp_all add: toks, simp_all add: ps_def)
    moreover have "ps[4 := v] = ps"
      by (simp add: ps_def)
    ultimately show ?thesis
      by (simp add: first)
  qed
qed

lemma replace_loop_twice:
  assumes "\<forall>v\<in>ran values. single_token v"
  shows "fst (replace_parameters (fst (replace_parameters lines values)) values) =
         fst (replace_parameters lines values)"
  using replace_step_twice [OF assms]
  by (simp add: replace_parameters_def fst_replace_loop)

lemma replace_loop_empty: "replace_parameters lines Map.empty = (lines, Map.empty)"
proof -
  have "replace_loop Map.empty lines old = (lines, old)" for old
    by (induction lines) (simp_all add: replace_step_absent)
  then show ?thesis
    by (simp add: replace_parameters_def)
qed


lemma join_Cons_Cons: "join sep ((c # t) # ts) = c # join sep (t # ts)"
  by (cases ts) simp_all

lemma split_not_Nil: "split sep s \<noteq> []"
  by (induction s) (simp_all split: list.splits)

lemma join_split: "join [sep] (split sep s) = s"
proof (induction s)
  case Nil
  show ?case by simp
next
  case (Cons c cs)
  obtain t ts where ts: "split sep cs = t # ts"
    using split_not_Nil [of sep cs] by (cases "split sep cs") auto
  with Cons.IH show ?case
    by (simp add: join_Cons_Cons)
qed

subsection \<open>Properties of the patcher\<close>

text \<open>
  C5. The patcher keeps the number of lines. A line with fewer than five tokens, or whose
  first two tokens are not \<^verbatim>\<open>//\<close> and \<^verbatim>\<open>@optionalParam\<close>, is returned as it is. A line
  that passes both tests and whose third token is a key of the mapping is returned as its
  tokens, the fifth replaced by the mapped value, joined by single spaces; and once the
  loop has passed that line, the previous-value map holds the line's fifth token under
  that key.
\<close>

theorem replace_parameters_lines:
  "length (fst (replace_parameters lines values)) = length lines \<and>
   (\<forall>i<length lines.
      let pieces = findall_nonspace (lines ! i) in
        (length pieces < 5 \<or> pieces ! 0 \<noteq> ''//'' \<or> pieces ! 1 \<noteq> ''@optionalParam'' \<longrightarrow>
           fst (replace_parameters lines values) ! i = lines ! i) \<and>
        (\<forall>v. 5 \<le> length pieces \<and> pieces ! 0 = ''//'' \<and> pieces ! 1 = ''@optionalParam'' \<and>
             values (pieces ! 2) = Some v \<longrightarrow>
           fst (replace_parameters lines values) ! i = join '' '' (pieces[4 := v]) \<and>
           snd (replace_parameters (take (Suc i) lines) values) (pieces ! 2) =
             Some (pieces ! 4)))"
proof (intro conjI allI impI)
  show "length (fst (replace_parameters lines values)) = length lines"
    by (rule length_replace_parameters)
next
  fix i
  assume i: "i < length lines"
  define pieces where "pieces = findall_nonspace (lines ! i)"
  have skip: "fst (replace_parameters lines values) ! i = lines ! i"
    if "length pieces < 5 \<or> pieces ! 0 \<noteq> ''//'' \<or> pieces ! 1 \<noteq> ''@optionalParam''"
  proof -
    from that have "replace_step values (lines ! i) Map.empty = (lines ! i, Map.empty)"
      unfolding pieces_def by (intro replace_step_skip) auto
    then show ?thesis
      by (simp add: nth_replace_parameters [OF i])
  qed
  have hit: "fst (replace_parameters lines values) ! i = join '' '' (pieces[4 := v]) \<and>
      snd (replace_parameters (take (Suc i) lines) values) (pieces ! 2) = Some (pieces ! 4)"
    if "5 \<le> length pieces \<and> pieces ! 0 = ''//'' \<and> pieces ! 1 = ''@optionalParam'' \<and>
      values (pieces ! 2) = Some v" for v
  proof
    from that show "fst (replace_parameters lines values) ! i = join '' '' (pieces[4 := v])"
      unfolding pieces_def by (simp add: nth_replace_parameters [OF i] replace_step_hit)
  next
    have "take (Suc i) lines = take i lines @ [lines ! i]"
      using i by (rule take_Suc_conv_app_nth)
    then have "snd (replace_parameters (take (Suc i) lines) values) =
        snd (replace_step values (lines ! i) (snd (replace_loop values (take i lines) Map.empty)))"
      by (simp add: replace_parameters_def snd_replace_loop_snoc)
    with that show "snd (replace_parameters (take (Suc i) lines) values) (pieces ! 2) =
        Some (pieces ! 4)"
      unfolding pieces_def by (simp add: replace_step_hit)
  qed
  from skip hit
  show "let pieces = findall_nonspace (lines ! i) in
        (length pieces < 5 \<or> pieces ! 0 \<noteq> ''//'' \<or> pieces ! 1 \<noteq> ''@optionalParam'' \<longrightarrow>
           fst (replace_parameters lines values) ! i = lines ! i) \<and>
        (\<forall>v. 5 \<le> length pieces \<and> pieces ! 0 = ''//'' \<and> pieces ! 1 = ''@optionalParam'' \<and>
             values (pieces ! 2) = Some v \<longrightarrow>
           fst (replace_parameters lines values) ! i = join '' '' (pieces[4 := v]) \<and>
           snd (replace_parameters (take (Suc i) lines) values) (pieces ! 2) =
             Some (pieces ! 4))"
    unfolding pieces_def Let_def by blast
qed

theorem replace_parameters_lines_witness:
  "fst (replace_parameters
          [''local k = 1;'', ''// @optionalParam  image string gcr.io/old The   image'']
          [''image'' \<mapsto> ''gcr.io/new'']) ! 0 = ''local k = 1;'' \<and>
   fst (replace_parameters
          [''local k = 1;'', ''// @optionalParam  image string gcr.io/old The   image'']
          [''image'' \<mapsto> ''gcr.io/new'']) ! 1 =
     ''// @optionalParam image string gcr.io/new The image'' \<and>
   snd (replace_parameters
          [''local k = 1;'', ''// @optionalParam  image string gcr.io/old The   image'']
          [''image'' \<mapsto> ''gcr.io/new'']) ''image'' = Some ''gcr.io/old''"
proof -
  let ?lines = "[''local k = 1;'', ''// @optionalParam  image string gcr.io/old The   image'']"
  let ?vals = "[''image'' \<mapsto> ''gcr.io/new'']"
  have t0: "findall_nonspace (?lines ! 0) = [''local'', ''k'', ''='', ''1;'']"
    by code_simp
  have t1: "findall_nonspace (?lines ! 1) =
      [''//'', ''@optionalParam'', ''image'', ''string'', ''gcr.io/old'', ''The'', ''image'']"
    by code_simp
  note all = replace_parameters_lines [of ?lines ?vals]
  from all have "\<forall>i<2. let pieces = findall_nonspace (?lines ! i) in
        (length pieces < 5 \<or> pieces ! 0 \<noteq> ''//'' \<or> pieces ! 1 \<noteq> ''@optionalParam'' \<longrightarrow>
           fst (replace_parameters ?lines ?vals) ! i = ?lines ! i) \<and>
        (\<forall>v. 5 \<le> length pieces \<and> pieces ! 0 = ''//'' \<and> pieces ! 1 = ''@optionalParam'' \<and>
             ?vals (pieces ! 2) = Some v \<longrightarrow>
           fst (replace_parameters ?lines ?vals) ! i = join '' '' (pieces[4 := v]) \<and>
           snd (replace_parameters (take (Suc i) ?lines) ?vals) (pieces ! 2) =
             Some (pieces ! 4))"
    by simp
  then have l0: "let pieces = findall_nonspace (?lines ! 0) in
        (length pieces < 5 \<or> pieces ! 0 \<noteq> ''//'' \<or> pieces ! 1 \<noteq> ''@optionalParam'' \<longrightarrow>
           fst (replace_parameters ?lines ?vals) ! 0 = ?lines ! 0) \<and>
        (\<forall>v. 5 \<le> length pieces \<and> pieces ! 0 = ''//'' \<and> pieces ! 1 = ''@optionalParam'' \<and>
             ?vals (pieces ! 2) = Some v \<longrightarrow>
           fst (replace_parameters ?lines ?vals) ! 0 = join '' '' (pieces[4 := v]) \<and>
           snd (replace_parameters (take (Suc 0) ?lines) ?vals) (pieces ! 2) =
             Some (pieces ! 4))"
    and l1: "let pieces = findall_nonspace (?lines ! 1) in
        (length pieces < 5 \<or> pieces ! 0 \<noteq> ''//'' \<or> pieces ! 1 \<noteq> ''@optionalParam'' \<longrightarrow>
           fst (replace_parameters ?lines ?vals) ! 1 = ?lines ! 1) \<and>
        (\<forall>v. 5 \<le> length pieces \<and> pieces ! 0 = ''//'' \<and> pieces ! 1 = ''@optionalParam'' \<and>
             ?vals (pieces ! 2) = Some v \<longrightarrow>
           fst (replace_parameters ?lines ?vals) ! 1 = join '' '' (pieces[4 := v]) \<and>
           snd (replace_parameters (take (Suc 1) ?lines) ?vals) (pieces ! 2) =
             Some (pieces ! 4))"
    by (metis zero_less_numeral, metis one_less_numeral_iff semiring_norm(76))
  from l0 have "fst (replace_parameters ?lines ?vals) ! 0 = ''local k = 1;''"
    unfolding t0 by (simp add: Let_def)
  moreover from l1 have "fst (replace_parameters ?lines ?vals) ! 1 =
      ''// @optionalParam image string gcr.io/new The image'' \<and>
      snd (replace_parameters ?lines ?vals) ''image'' = Some ''gcr.io/old''"
    unfolding t1 by (simp add: Let_def)
  ultimately show ?thesis by blast
qed

text \<open>
  C8. As stated, for every mapping, the claim fails: a value that holds whitespace is
  split into several tokens by the next pass, which then replaces only the first of them.
\<close>

theorem replace_parameters_twice_differs:
  "fst (replace_parameters
          (fst (replace_parameters [''// @optionalParam image string old desc'']
                  [''image'' \<mapsto> ''a b'']))
          [''image'' \<mapsto> ''a b'']) \<noteq>
   fst (replace_parameters [''// @optionalParam image string old desc'']
          [''image'' \<mapsto> ''a b'']) \<and>
   fst (replace_parameters
          (fst (replace_parameters [''// @optionalParam image string old desc'']
                  [''image'' \<mapsto> ''a b'']))
          [''image'' \<mapsto> ''a b'']) = [''// @optionalParam image string a b b desc''] \<and>
   fst (replace_parameters [''// @optionalParam image string old desc'']
          [''image'' \<mapsto> ''a b'']) = [''// @optionalParam image string a b desc'']"
  by code_simp

text \<open>
  C8, amended. When every value of the mapping is a single token (not empty, without
  whitespace), a second pass with the same mapping returns the lines of the first pass.
\<close>

theorem replace_parameters_idempotent:
  assumes "\<forall>v\<in>ran values. single_token v"
  shows "fst (replace_parameters (fst (replace_parameters lines values)) values) =
         fst (replace_parameters lines values)"
  using assms by (rule replace_loop_twice)

theorem replace_parameters_idempotent_witness:
  "fst (replace_parameters
          (fst (replace_parameters [''// @optionalParam  image string old  desc'', ''x  y'']
                  [''image'' \<mapsto> ''gcr.io/new'']))
          [''image'' \<mapsto> ''gcr.io/new'']) =
   fst (replace_parameters [''// @optionalParam  image string old  desc'', ''x  y'']
          [''image'' \<mapsto> ''gcr.io/new'']) \<and>
   fst (replace_parameters [''// @optionalParam  image string old  desc'', ''x  y'']
          [''image'' \<mapsto> ''gcr.io/new'']) =
     [''// @optionalParam image string gcr.io/new desc'', ''x  y'']"
proof -
  have tok: "single_token ''gcr.io/new''"
    by code_simp
  have "\<forall>v\<in>ran [''image'' \<mapsto> ''gcr.io/new'']. single_token v"
    using tok by simp
  then have "fst (replace_parameters
          (fst (replace_parameters [''// @optionalParam  image string old  desc'', ''x  y'']
                  [''image'' \<mapsto> ''gcr.io/new'']))
          [''image'' \<mapsto> ''gcr.io/new'']) =
   fst (replace_parameters [''// @optionalParam  image string old  desc'', ''x  y'']
          [''image'' \<mapsto> ''gcr.io/new''])"
    by (rule replace_parameters_idempotent)
  moreover have "fst (replace_parameters [''// @optionalParam  image string old  desc'', ''x  y'']
          [''image'' \<mapsto> ''gcr.io/new'']) =
     [''// @optionalParam image string gcr.io/new desc'', ''x  y'']"
    by code_simp
  ultimately show ?thesis by blast
qed

text \<open>
  C9. With the empty mapping the patcher returns its lines and an empty previous-value
  map; so the text that \<^verbatim>\<open>update_prototype\<close> would split into lines, patch and join again
  is the text it came from.
\<close>

theorem replace_parameters_empty_mapping:
  "replace_parameters lines Map.empty = (lines, Map.empty) \<and>
   join [CHR 0x0A] (fst (replace_parameters (split CHR 0x0A content) Map.empty)) = content"
  by (simp add: replace_loop_empty join_split)

theorem replace_parameters_empty_mapping_witness:
  "replace_parameters [''// @optionalParam image string old desc'', ''  x''] Map.empty =
     ([''// @optionalParam image string old desc'', ''  x''], Map.empty) \<and>
   join [CHR 0x0A] (fst (replace_parameters (split CHR 0x0A sample_prototype) Map.empty)) =
     sample_prototype"
  using replace_parameters_empty_mapping
    [of "[''// @optionalParam image string old desc'', ''  x'']" sample_prototype]
  by simp

text \<open>
  C10. When at least one line matches the recognised pattern with a parameter name of the
  mapping, every such line is rewritten with the mapped value, and the previous-value map
  returned holds, under that name, the fifth token of the last such line.
\<close>

theorem replace_parameters_last_wins:
  assumes "values k = Some v" and "filter (recognized k) lines \<noteq> []"
  shows "(\<forall>i<length lines. recognized k (lines ! i) \<longrightarrow>
            fst (replace_parameters lines values) ! i =
              join '' '' ((findall_nonspace (lines ! i))[4 := v])) \<and>
         snd (replace_parameters lines values) k =
           Some (findall_nonspace (last (filter (recognized k) lines)) ! 4)"
proof (intro conjI allI impI)
  fix i
  assume "i < length lines" and "recognized k (lines ! i)"
  with assms(1) show "fst (replace_parameters lines values) ! i =
      join '' '' ((findall_nonspace (lines ! i))[4 := v])"
    by (simp add: nth_replace_parameters recognized_def Let_def replace_step_hit)
next
  from assms show "snd (replace_parameters lines values) k =
      Some (findall_nonspace (last (filter (recognized k) lines)) ! 4)"
    by (simp add: replace_parameters_def snd_replace_loop_key)
qed

theorem replace_parameters_last_wins_witness:
  "fst (replace_parameters
          [''// @optionalParam image string first one'', ''other'',
           ''// @optionalParam image string second two'']
          [''image'' \<mapsto> ''new'']) =
     [''// @optionalParam image string new one'', ''other'',
      ''// @optionalParam image string new two''] \<and>
   snd (replace_parameters
          [''// @optionalParam image string first one'', ''other'',
           ''// @optionalParam image string second two'']
          [''image'' \<mapsto> ''new'']) ''image'' = Some ''second''"
proof -
  let ?lines = "[''// @optionalParam image string first one'', ''other'',
      ''// @optionalParam image string second two'']"
  let ?vals = "[''image'' \<mapsto> ''new'']"
  have r: "filter (recognized ''image'') ?lines =
      [''// @optionalParam image string first one'', ''// @optionalParam image string second two'']"
    by code_simp
  have t: "findall_nonspace ''// @optionalParam image string second two'' ! 4 = ''second''"
    by code_simp
  have ne: "filter (recognized ''image'') ?lines \<noteq> []"
    unfolding r by simp
  have v: "?vals ''image'' = Some ''new''"
    by simp
  from replace_parameters_last_wins [of ?vals "''image''" "''new''" ?lines, OF v ne]
  have "snd (replace_parameters ?lines ?vals) ''image'' =
      Some (findall_nonspace (last (filter (recognized ''image'') ?lines)) ! 4)"
    by (rule conjunct2)
  then have a: "snd (replace_parameters ?lines ?vals) ''image'' = Some ''second''"
    unfolding r by (simp add: t)
  have "fst (replace_parameters ?lines ?vals) =
      [''// @optionalParam image string new one'', ''other'',
       ''// @optionalParam image string new two'']"
    by code_simp
  with a show ?thesis
    by blast
qed

text \<open>
  C6. When no line of the prototype file, as read in text mode, matches the recognised
  pattern with the name \<^verbatim>\<open>image\<close>, the patcher (which has no raising branch) returns a
  previous-value map without the key \<^verbatim>\<open>image\<close>, whatever the mapping, and
  \<^verbatim>\<open>update_prototype\<close> raises \<^verbatim>\<open>KeyError\<close> at \<^verbatim>\<open>old_values["image"]\<close>, leaving the world as
  it was.
\<close>

theorem update_prototype_missing_key:
  assumes "files w (prototype_file w) = Some stored"
    and "\<forall>line\<in>set (split CHR 0x0A (universal_newlines stored)). \<not> recognized ''image'' line"
  shows "snd (replace_parameters (split CHR 0x0A (universal_newlines stored)) values) ''image'' =
           None \<and>
         update_prototype img w = (Inl KeyError, w)"
proof -
  let ?prototype = "split CHR 0x0A (universal_newlines stored)"
  from assms(2) have none: "filter (recognized ''image'') ?prototype = []"
    by (simp add: filter_empty_conv)
  then have key: "snd (replace_parameters ?prototype vs) ''image'' = None" for vs
    by (simp add: replace_parameters_def snd_replace_loop_key)
  from assms(1) key [of "[''image'' \<mapsto> img]"]
  have "update_prototype img w = (Inl KeyError, w)"
    by (simp add: update_prototype_def Let_def split_beta)
  with key show ?thesis by simp
qed

theorem update_prototype_missing_key_witness:
  "update_prototype ''gcr.io/proj/jupyter-web-app:abc123''
     (sample_world\<lparr>files := [prototype_file sample_world \<mapsto>
        ''local k = 1;'' @ [CHR 0x0D] @ ''// @optionalParam name string x y'']\<rparr>) =
   (Inl KeyError,
    sample_world\<lparr>files := [prototype_file sample_world \<mapsto>
        ''local k = 1;'' @ [CHR 0x0D] @ ''// @optionalParam name string x y'']\<rparr>)"
proof -
  let ?stored = "''local k = 1;'' @ [CHR 0x0D] @ ''// @optionalParam name string x y''"
  let ?w = "sample_world\<lparr>files := [prototype_file sample_world \<mapsto> ?stored]\<rparr>"
  have f: "files ?w (prototype_file ?w) = Some ?stored"
    by (simp add: prototype_file_def)
  have n: "\<forall>line\<in>set (split CHR 0x0A (universal_newlines ?stored)).
      \<not> recognized ''image'' line"
    by code_simp
  from update_prototype_missing_key [OF f n] show ?thesis
    by simp
qed

section \<open>The run\<close>

lemma last_os_path_join: "b \<noteq> [] \<Longrightarrow> last (os_path_join a b) = last b"
  by (simp add: os_path_join_def)

lemma known_hosts_not_prototype: "known_hosts_file w \<noteq> prototype_file w'"
proof
  assume "known_hosts_file w = prototype_file w'"
  then have "last (known_hosts_file w) = last (prototype_file w')"
    by simp
  then show False
    by (simp add: known_hosts_file_def prototype_file_def last_os_path_join)
qed

lemma trace_emit [simp]: "trace (emit a w) = trace w @ [a]"
  by (simp add: emit_def)

lemma emit_fields [simp]:
  "root_dir (emit a w) = root_dir w" "home (emit a w) = home w"
  "cached_commit (emit a w) = cached_commit w" "git_log_output (emit a w) = git_log_output w"
  "keyscan_output (emit a w) = keyscan_output w" "files (emit a w) = files w"
  "remotes (emit a w) = remotes w" "registry (emit a w) = registry w"
  "gcb_build (emit a w) = gcb_build w" "active_branch (emit a w) = active_branch w"
  "branches (emit a w) = branches w" "pr_list_output (emit a w) = pr_list_output w"
  by (simp_all add: emit_def)

lemma last_commit_fields [simp]:
  "root_dir (snd (last_commit w)) = root_dir w" "home (snd (last_commit w)) = home w"
  "git_log_output (snd (last_commit w)) = git_log_output w"
  "keyscan_output (snd (last_commit w)) = keyscan_output w"
  "files (snd (last_commit w)) = files w"
  "remotes (snd (last_commit w)) = remotes w" "registry (snd (last_commit w)) = registry w"
  "gcb_build (snd (last_commit w)) = gcb_build w"
  "active_branch (snd (last_commit w)) = active_branch w"
  "branches (snd (last_commit w)) = branches w"
  "pr_list_output (snd (last_commit w)) = pr_list_output w"
  by (simp_all add: last_commit_def Let_def split: option.splits list.splits)

lemma last_commit_cached [simp]:
  "cached_commit (snd (last_commit w)) = Some (fst (last_commit w))"
  by (simp add: last_commit_def Let_def split: option.splits list.splits)

lemma last_commit_trace:
  "trace (snd (last_commit w)) =
     trace w @ (case cached_commit w of Some (c # cs) \<Rightarrow> [] | _ \<Rightarrow> [GitLog])"
  by (simp add: last_commit_def Let_def split: option.splits list.splits)

lemma last_commit_again:
  assumes "cached_commit w' = Some (fst (last_commit w))"
    and "git_log_output w' = git_log_output w"
  shows "fst (last_commit w') = fst (last_commit w)"
  using assms by (auto simp: last_commit_def Let_def split: option.splits list.splits)

lemma filter_last_commit:
  "\<not> P GitLog \<Longrightarrow> filter P (trace (snd (last_commit w))) = filter P (trace w)"
  by (simp add: last_commit_trace split: option.splits list.splits)

subsection \<open>The stages of the run\<close>

lemma last_commit_emit [simp]: "fst (last_commit (emit a w)) = fst (last_commit w)"
  by (simp add: last_commit_def Let_def split: option.splits list.splits)

lemma candidate_cong:
  "fst (last_commit w') = fst (last_commit w) \<Longrightarrow> candidate p w' = candidate p w"
  by (simp add: candidate_def)

lemma create_remote_fields:
  "registry (snd (create_remote n u w)) = registry w"
  "gcb_build (snd (create_remote n u w)) = gcb_build w"
  "git_log_output (snd (create_remote n u w)) = git_log_output w"
  "pr_list_output (snd (create_remote n u w)) = pr_list_output w"
  "root_dir (snd (create_remote n u w)) = root_dir w"
  "cached_commit (snd (create_remote n u w)) = cached_commit w"
  "files (snd (create_remote n u w)) = files w"
  "trace (snd (create_remote n u w)) = trace w @ [CreateRemote n u]"
  by (simp_all add: create_remote_def Let_def)

lemma all_setup_fields:
  "registry (snd (all_setup remote_fork add_github_host w)) = registry w"
  "gcb_build (snd (all_setup remote_fork add_github_host w)) = gcb_build w"
  "git_log_output (snd (all_setup remote_fork add_github_host w)) = git_log_output w"
  "pr_list_output (snd (all_setup remote_fork add_github_host w)) = pr_list_output w"
  "root_dir (snd (all_setup remote_fork add_github_host w)) = root_dir w"
  "cached_commit (snd (all_setup remote_fork add_github_host w)) = Some (fst (last_commit w))"
  "files (snd (all_setup remote_fork add_github_host w)) (prototype_file w) =
     files w (prototype_file w)"
  by (simp_all add: all_setup_def Let_def split_beta create_remote_fields
      known_hosts_not_prototype known_hosts_not_prototype [symmetric]
      split: option.splits sum.splits)

lemma all_setup_trace:
  assumes "\<not> P ActivateServiceAccount" "\<not> P GitLog" "\<not> P SshKeyscan"
    and "\<And>n u. \<not> P (CreateRemote n u)"
  shows "filter P (trace (snd (all_setup remote_fork add_github_host w))) = filter P (trace w)"
  using assms
  by (simp add: all_setup_def Let_def split_beta create_remote_fields filter_last_commit
      split: option.splits sum.splits)

text \<open>
  When the name derived from the fork's URL belongs to a remote with another URL, the run
  ends at \<^verbatim>\<open>git remote add\<close>, before any manifest is fetched.
\<close>

lemma all_run_remote_name_taken:
  "fst (all_run ''build'' ''proj'' ''git@github.com:jlewi/kubeflow.git'' False
          (sample_world\<lparr>remotes :=
             [\<lparr>rname = ''jlewi'', urls = [''git@github.com:jlewi/other.git'']\<rparr>]\<rparr>)) =
     Inl GitCommandError \<and>
   trace (snd (all_run ''build'' ''proj'' ''git@github.com:jlewi/kubeflow.git'' False
          (sample_world\<lparr>remotes :=
             [\<lparr>rname = ''jlewi'', urls = [''git@github.com:jlewi/other.git'']\<rparr>]\<rparr>))) =
     [ActivateServiceAccount, GitLog,
      CreateRemote ''jlewi'' ''git@github.com:jlewi/kubeflow.git'']"
  by code_simp

lemma all_setup_rejected:
  "\<not> startswith remote_fork ''git@github.com'' \<Longrightarrow>
   fst (all_setup remote_fork add_github_host w) = Inl ValueError"
  by (simp add: all_setup_def Let_def split_beta)

lemma build_image_trace:
  "trace (snd (build_image bp rp w)) = trace w @ [MakeBuildGcb bp rp (cached_commit w)]"
  by (simp add: build_image_def Let_def split: build_result.splits option.splits)

lemma build_image_fields:
  "files (snd (build_image bp rp w)) = files w"
  "root_dir (snd (build_image bp rp w)) = root_dir w"
  "git_log_output (snd (build_image bp rp w)) = git_log_output w"
  "pr_list_output (snd (build_image bp rp w)) = pr_list_output w"
  "cached_commit (snd (build_image bp rp w)) = cached_commit w"
  by (simp_all add: build_image_def Let_def split: build_result.splits option.splits)

lemma build_image_result:
  "fst (build_image bp rp w) =
     (case gcb_build w of
        MakeFailed \<Rightarrow> Inl CalledProcessError
      | NoOutput \<Rightarrow> Inl FileNotFoundError
      | Output data \<Rightarrow> (case data ''image'' of None \<Rightarrow> Inl KeyError | Some i \<Rightarrow> Inr i))"
  by (simp add: build_image_def Let_def split: build_result.splits option.splits)

lemma all_image_eq:
  "all_image bp rp w =
     (let w2 = emit (FetchManifest (candidate rp w)) (snd (last_commit w)) in
      case registry w (candidate rp w) of
        Found digest \<Rightarrow> (Inr (candidate rp w), w2)
      | Diagnostic status \<Rightarrow>
          if status = 404 then build_image bp rp w2
          else (Inl (V2DiagnosticException status), w2)
      | OtherException \<Rightarrow> (Inl RegistryException, w2))"
  by (simp add: all_image_def candidate_def Let_def split_beta split: fetch_result.splits)

lemma all_image_fields:
  "files (snd (all_image bp rp w)) = files w"
  "root_dir (snd (all_image bp rp w)) = root_dir w"
  "git_log_output (snd (all_image bp rp w)) = git_log_output w"
  "pr_list_output (snd (all_image bp rp w)) = pr_list_output w"
  "cached_commit (snd (all_image bp rp w)) = Some (fst (last_commit w))"
  by (simp_all add: all_image_eq Let_def build_image_fields split: fetch_result.splits)

lemma all_image_trace:
  "trace (snd (all_image bp rp w)) =
     trace w @ (case cached_commit w of Some (c # cs) \<Rightarrow> [] | _ \<Rightarrow> [GitLog]) @
       [FetchManifest (candidate rp w)] @
       (if registry w (candidate rp w) = Diagnostic 404
        then [MakeBuildGcb bp rp (Some (fst (last_commit w)))] else [])"
  by (simp add: all_image_eq Let_def build_image_trace last_commit_trace
      split: fetch_result.splits)

lemma update_prototype_fields:
  "trace (snd (update_prototype img w)) = trace w"
  "cached_commit (snd (update_prototype img w)) = cached_commit w"
  "git_log_output (snd (update_prototype img w)) = git_log_output w"
  "pr_list_output (snd (update_prototype img w)) = pr_list_output w"
  by (simp_all add: update_prototype_def Let_def split_beta split: option.splits)

lemma update_prototype_same:
  assumes "files w (prototype_file w) = Some stored"
    and "snd (replace_parameters (split CHR 0x0A (universal_newlines stored))
           [''image'' \<mapsto> img]) ''image'' = Some img"
  shows "update_prototype img w = (Inr None, w)"
  using assms by (simp add: update_prototype_def Let_def split_beta)

text \<open>
  A lone \<^verbatim>\<open>\r\<close> in the stored file ends a line for \<^verbatim>\<open>update_prototype\<close>: the parameter
  behind it is found and the file is rewritten with \<^verbatim>\<open>\n\<close>.
\<close>

lemma update_prototype_lone_cr:
  "fst (update_prototype ''new''
          (sample_world\<lparr>files := [prototype_file sample_world \<mapsto>
             ''local k = 1;'' @ [CHR 0x0D] @ ''// @optionalParam image string other x'']\<rparr>)) =
     Inr (Some ''/src/kubeflow/jupyter/prototypes/jupyter-web-app.jsonnet'') \<and>
   files (snd (update_prototype ''new''
          (sample_world\<lparr>files := [prototype_file sample_world \<mapsto>
             ''local k = 1;'' @ [CHR 0x0D] @ ''// @optionalParam image string other x'']\<rparr>)))
     ''/src/kubeflow/jupyter/prototypes/jupyter-web-app.jsonnet'' =
     Some (''local k = 1;'' @ [CHR 0x0A] @ ''// @optionalParam image string new x'')"
  by code_simp

lemma split1_semicolon:
  "split1 CHR '';'' l =
     (if CHR '';'' \<in> set l
      then [takeWhile (\<lambda>c. c \<noteq> CHR '';'') l, tl (dropWhile (\<lambda>c. c \<noteq> CHR '';'') l)]
      else [l])"
  by (simp add: split1_def)

lemma pr_loop_dom:
  "pr_loop ls prs = Inr prs' \<Longrightarrow>
   dom prs' = dom prs \<union>
     set (map (\<lambda>l. tl (dropWhile (\<lambda>c. c \<noteq> CHR '';'') l)) (filter (\<lambda>l. CHR '';'' \<in> set l) ls))"
proof (induction ls arbitrary: prs)
  case Nil
  then show ?case by simp
next
  case (Cons l ls)
  show ?case
  proof (cases "CHR '';'' \<in> set l")
    case True
    with Cons.prems
    have "pr_loop ls (prs(tl (dropWhile (\<lambda>c. c \<noteq> CHR '';'') l) \<mapsto>
        takeWhile (\<lambda>c. c \<noteq> CHR '';'') l)) = Inr prs'"
      by (simp add: split1_semicolon)
    from Cons.IH [OF this] True show ?thesis
      by auto
  next
    case False
    with Cons.prems show ?thesis
      by (simp add: split1_semicolon)
  qed
qed

lemma pr_loop_listed:
  assumes "pr_loop (splitlines out) Map.empty = Inr prs" and "title \<in> set (listed_titles out)"
  shows "prs title \<noteq> None"
proof -
  from pr_loop_dom [OF assms(1)] assms(2) have "title \<in> dom prs"
    by (simp add: listed_titles_def)
  then show ?thesis by auto
qed

lemma last_commit_empty:
  "fst (last_commit w) = [] \<Longrightarrow> strip CHR 0x22 (git_log_output w) = []"
  by (auto simp: last_commit_def Let_def split: option.splits list.splits)

lemma check_if_pr_exists_trace:
  assumes "\<not> P GitLog" "\<not> P HubPrList"
  shows "filter P (trace (snd (check_if_pr_exists c w))) = filter P (trace w)"
  using assms
  by (simp add: check_if_pr_exists_def Let_def split_beta filter_last_commit
      split: option.splits list.splits sum.splits)

lemma check_if_pr_exists_listed:
  assumes "cached_commit w = Some commit"
    and "commit = [] \<longrightarrow> strip CHR 0x22 (git_log_output w) = []"
    and "pr_title commit \<in> set (listed_titles (pr_list_output w))"
  shows "fst (check_if_pr_exists (Some commit) w) \<noteq> Inr False"
proof (cases commit)
  case Nil
  with assms have lc: "fst (last_commit w) = []"
    by (simp add: last_commit_def Let_def)
  show ?thesis
    using pr_loop_listed [of "pr_list_output w" _ "pr_title []"] assms(3) Nil lc
    by (auto simp: check_if_pr_exists_def Let_def split_beta split: sum.splits)
next
  case (Cons c cs)
  show ?thesis
    using pr_loop_listed [of "pr_list_output w" _ "pr_title commit"] assms(3) Cons
    by (auto simp: check_if_pr_exists_def Let_def split_beta split: sum.splits)
qed

lemma git_checkout_fields [simp]:
  "trace (git_checkout b w) = trace w @ [GitCheckout b]"
  "cached_commit (git_checkout b w) = cached_commit w"
  "git_log_output (git_checkout b w) = git_log_output w"
  "pr_list_output (git_checkout b w) = pr_list_output w"
  "trace (git_checkout_b b w) = trace w @ [GitCheckoutNew b]"
  "cached_commit (git_checkout_b b w) = cached_commit w"
  "git_log_output (git_checkout_b b w) = git_log_output w"
  "pr_list_output (git_checkout_b b w) = pr_list_output w"
  by (simp_all add: git_checkout_def git_checkout_b_def)

text \<open>The world in which \<open>all_publish\<close> lists the open pull requests.\<close>

lemma all_publish_eq:
  "all_publish commit r img w =
     (case fst (update_prototype img w) of
        Inl e \<Rightarrow> (Inl e, snd (update_prototype img w))
      | Inr None \<Rightarrow> (Inr (), snd (update_prototype img w))
      | Inr (Some []) \<Rightarrow> (Inr (), snd (update_prototype img w))
      | Inr (Some (p # ps)) \<Rightarrow>
          (let w1 = snd (update_prototype img w);
               branch_name = ''update_jupyter_'' @ commit;
               w2 = (if active_branch w1 \<noteq> branch_name then
                       (if branch_name \<in> set (branches w1) then git_checkout branch_name w1
                        else git_checkout_b branch_name w1)
                     else w1)
           in case fst (check_if_pr_exists (Some commit) w2) of
                Inl e \<Rightarrow> (Inl e, snd (check_if_pr_exists (Some commit) w2))
              | Inr True \<Rightarrow> (Inr (), snd (check_if_pr_exists (Some commit) w2))
              | Inr False \<Rightarrow>
                  (Inr (),
                   create_pull_request ''kubeflow:master'' commit
                     (emit (GitPush (rname r))
                        (emit (IndexCommit (''Update the jupyter web app image to '' @ img))
                           (emit (IndexAdd (p # ps))
                              (snd (check_if_pr_exists (Some commit) w2))))))))"
  by (cases "update_prototype img w")
    (simp add: all_publish_def Let_def split_beta
      split: sum.splits option.splits list.splits bool.splits prod.splits)

lemma all_publish_trace:
  assumes "\<not> P GitLog" "\<not> P HubPrList" "\<And>b. \<not> P (GitCheckout b)" "\<And>b. \<not> P (GitCheckoutNew b)"
    and "\<And>a. is_publish a \<Longrightarrow> \<not> P a"
  shows "filter P (trace (snd (all_publish commit r img w))) = filter P (trace w)"
proof -
  let ?u = "snd (update_prototype img w)"
  let ?b = "''update_jupyter_'' @ commit"
  define w2 where "w2 =
    (if active_branch ?u \<noteq> ?b then
       (if ?b \<in> set (branches ?u) then git_checkout ?b ?u else git_checkout_b ?b ?u)
     else ?u)"
  let ?c = "check_if_pr_exists (Some commit) w2"
  have pub: "\<not> P (IndexAdd x)" "\<not> P (IndexCommit y)" "\<not> P (GitPush z)"
    "\<not> P (HubPullRequest x y)" for x y z
    using assms(5) by simp_all
  have u: "filter P (trace ?u) = filter P (trace w)"
    by (simp add: update_prototype_fields)
  have "filter P (trace w2) = filter P (trace w)"
    using assms(3,4) by (simp add: w2_def u)
  then have c: "filter P (trace (snd ?c)) = filter P (trace w)"
    using assms(1,2) by (simp add: check_if_pr_exists_trace)
  show ?thesis
  proof (cases "fst (update_prototype img w)")
    case (Inl e)
    then show ?thesis
      by (simp add: all_publish_eq u)
  next
    case (Inr pf)
    show ?thesis
    proof (cases pf)
      case None
      with Inr show ?thesis
        by (simp add: all_publish_eq u)
    next
      case (Some p)
      show ?thesis
      proof (cases p)
        case Nil
        with Inr Some show ?thesis
          by (simp add: all_publish_eq u)
      next
        case (Cons x xs)
        have eq: "all_publish commit r img w =
            (case fst ?c of
               Inl e \<Rightarrow> (Inl e, snd ?c)
             | Inr True \<Rightarrow> (Inr (), snd ?c)
             | Inr False \<Rightarrow>
                 (Inr (),
                  create_pull_request ''kubeflow:master'' commit
                    (emit (GitPush (rname r))
                       (emit (IndexCommit (''Update the jupyter web app image to '' @ img))
                          (emit (IndexAdd (x # xs)) (snd ?c))))))"
          unfolding w2_def
          by (simp only: all_publish_eq Inr Some Cons Let_def sum.case option.case list.case)
        show ?thesis
        proof (cases "fst ?c")
          case (Inl e)
          then show ?thesis
            by (simp add: eq c)
        next
          case (Inr found)
          then show ?thesis
            by (cases found) (simp_all add: eq c pub create_pull_request_def)
        qed
      qed
    qed
  qed
qed

lemma all_publish_listed:
  assumes "cached_commit w = Some commit"
    and "commit = [] \<longrightarrow> strip CHR 0x22 (git_log_output w) = []"
    and "pr_title commit \<in> set (listed_titles (pr_list_output w))"
  shows "published (snd (all_publish commit r img w)) = published w"
proof -
  let ?u = "snd (update_prototype img w)"
  let ?b = "''update_jupyter_'' @ commit"
  define w2 where "w2 =
    (if active_branch ?u \<noteq> ?b then
       (if ?b \<in> set (branches ?u) then git_checkout ?b ?u else git_checkout_b ?b ?u)
     else ?u)"
  let ?c = "check_if_pr_exists (Some commit) w2"
  have u: "published ?u = published w"
    by (simp add: published_def update_prototype_fields)
  have f2: "cached_commit w2 = cached_commit w" "git_log_output w2 = git_log_output w"
    "pr_list_output w2 = pr_list_output w"
    by (simp_all add: w2_def update_prototype_fields)
  have "published w2 = published w"
    using u by (simp add: w2_def published_def)
  then have c: "published (snd ?c) = published w"
    by (simp add: published_def check_if_pr_exists_trace)
  have found: "fst ?c \<noteq> Inr False"
    using assms by (intro check_if_pr_exists_listed) (simp_all add: f2)
  show ?thesis
  proof (cases "fst (update_prototype img w)")
    case (Inl e)
    then show ?thesis
      by (simp add: all_publish_eq u)
  next
    case (Inr pf)
    show ?thesis
    proof (cases pf)
      case None
      with Inr show ?thesis
        by (simp add: all_publish_eq u)
    next
      case (Some p)
      show ?thesis
      proof (cases p)
        case Nil
        with Inr Some show ?thesis
          by (simp add: all_publish_eq u)
      next
        case (Cons x xs)
        have eq: "all_publish commit r img w =
            (case fst ?c of
               Inl e \<Rightarrow> (Inl e, snd ?c)
             | Inr True \<Rightarrow> (Inr (), snd ?c)
             | Inr False \<Rightarrow>
                 (Inr (),
                  create_pull_request ''kubeflow:master'' commit
                    (emit (GitPush (rname r))
                       (emit (IndexCommit (''Update the jupyter web app image to '' @ img))
                          (emit (IndexAdd (x # xs)) (snd ?c))))))"
          unfolding w2_def
          by (simp only: all_publish_eq Inr Some Cons Let_def sum.case option.case list.case)
        show ?thesis
        proof (cases "fst ?c")
          case (Inl e)
          then show ?thesis
            by (simp add: eq c)
        next
          case (Inr listed)
          with found have "listed"
            by simp
          with Inr show ?thesis
            by (simp add: eq c)
        qed
      qed
    qed
  qed
qed

lemma all_setup_Inr:
  assumes "fst (all_setup remote_fork add_github_host w) = Inr (commit, r)"
  shows "startswith remote_fork ''git@github.com''" and "commit = fst (last_commit w)"
proof -
  show "startswith remote_fork ''git@github.com''"
    using assms all_setup_rejected [of remote_fork add_github_host w] by auto
  then show "commit = fst (last_commit w)"
    using assms
    by (auto simp: all_setup_def Let_def split_beta split: option.splits sum.splits)
qed

lemma all_run_eq:
  "all_run bp rp remote_fork add_github_host w =
     (case fst (all_setup remote_fork add_github_host w) of
        Inl e \<Rightarrow> (Inl e, snd (all_setup remote_fork add_github_host w))
      | Inr (commit, r) \<Rightarrow>
          (case fst (all_image bp rp (snd (all_setup remote_fork add_github_host w))) of
             Inl e \<Rightarrow> (Inl e, snd (all_image bp rp (snd (all_setup remote_fork add_github_host w))))
           | Inr img \<Rightarrow>
               all_publish commit r img
                 (snd (all_image bp rp (snd (all_setup remote_fork add_github_host w))))))"
  by (simp add: all_run_def split_beta split: sum.splits prod.splits)

lemma all_setup_commit:
  "fst (last_commit (snd (all_setup remote_fork add_github_host w))) = fst (last_commit w)"
  "candidate rp (snd (all_setup remote_fork add_github_host w)) = candidate rp w"
proof -
  show "fst (last_commit (snd (all_setup remote_fork add_github_host w))) = fst (last_commit w)"
    by (intro last_commit_again) (simp_all add: all_setup_fields)
  then show "candidate rp (snd (all_setup remote_fork add_github_host w)) = candidate rp w"
    by (rule candidate_cong)
qed

lemma all_image_filter:
  assumes "\<not> P GitLog" "\<And>i. \<not> P (FetchManifest i)" "\<And>a. is_build a \<Longrightarrow> \<not> P a"
  shows "filter P (trace (snd (all_image bp rp w))) = filter P (trace w)"
  using assms by (simp add: all_image_trace split: option.splits list.splits)

lemma all_publish_builds:
  "filter is_build (trace (snd (all_publish commit r img w))) = filter is_build (trace w)"
proof (rule all_publish_trace)
  show "\<not> is_build a" if "is_publish a" for a
    using that by (cases a) simp_all
qed simp_all

lemma all_run_builds:
  "builds (snd (all_run bp rp remote_fork add_github_host w)) =
     builds w @
       (if \<not> isl (fst (all_setup remote_fork add_github_host w)) \<and>
           registry w (candidate rp w) = Diagnostic 404
        then [MakeBuildGcb bp rp (Some (fst (last_commit w)))] else [])"
proof (cases "fst (all_setup remote_fork add_github_host w)")
  case (Inl e)
  then show ?thesis
    by (simp add: all_run_eq builds_def all_setup_trace)
next
  case (Inr p)
  let ?w1 = "snd (all_setup remote_fork add_github_host w)"
  let ?w2 = "snd (all_image bp rp ?w1)"
  obtain commit r where p: "p = (commit, r)"
    by (cases p)
  have "builds (snd (all_run bp rp remote_fork add_github_host w)) = builds ?w2"
    by (simp add: all_run_eq Inr p builds_def all_publish_builds split: sum.splits)
  also have "\<dots> = builds ?w1 @
      (if registry ?w1 (candidate rp ?w1) = Diagnostic 404
       then [MakeBuildGcb bp rp (Some (fst (last_commit ?w1)))] else [])"
    by (simp add: builds_def all_image_trace split: option.splits list.splits)
  also have "builds ?w1 = builds w"
    by (simp add: builds_def all_setup_trace)
  finally show ?thesis
    using Inr by (simp add: all_setup_fields all_setup_commit)
qed

text \<open>
  C3. Let the run have come to the image resolver (the part before it has returned the
  revision and the remote). When the manifest fetch for the candidate reference raises
  \<^verbatim>\<open>V2DiagnosticException\<close> with a status other than 404, the run ends with that
  exception and invokes no build. And a run that invokes a build is one whose fetch
  failed with status 404.
\<close>

theorem all_registry_error_is_fatal:
  "(fst (all_setup remote_fork add_github_host w) = Inr (commit, r) \<and>
    registry w (candidate registry_project w) = Diagnostic status \<and> status \<noteq> 404 \<longrightarrow>
      fst (all_run build_project registry_project remote_fork add_github_host w) =
        Inl (V2DiagnosticException status) \<and>
      builds (snd (all_run build_project registry_project remote_fork add_github_host w)) =
        builds w) \<and>
   (builds (snd (all_run build_project registry_project remote_fork add_github_host w)) \<noteq>
      builds w \<longrightarrow>
      registry w (candidate registry_project w) = Diagnostic 404)"
proof (intro conjI impI)
  assume a: "fst (all_setup remote_fork add_github_host w) = Inr (commit, r) \<and>
    registry w (candidate registry_project w) = Diagnostic status \<and> status \<noteq> 404"
  let ?w1 = "snd (all_setup remote_fork add_github_host w)"
  have "registry ?w1 (candidate registry_project ?w1) = Diagnostic status"
    using a by (simp add: all_setup_fields all_setup_commit)
  with a have "fst (all_image build_project registry_project ?w1) =
      Inl (V2DiagnosticException status)"
    by (simp add: all_image_eq Let_def)
  with a show "fst (all_run build_project registry_project remote_fork add_github_host w) =
      Inl (V2DiagnosticException status)"
    by (simp add: all_run_eq)
  from a show "builds (snd (all_run build_project registry_project remote_fork add_github_host w)) =
      builds w"
    by (simp add: all_run_builds)
next
  assume "builds (snd (all_run build_project registry_project remote_fork add_github_host w)) \<noteq>
      builds w"
  then show "registry w (candidate registry_project w) = Diagnostic 404"
    by (simp add: all_run_builds split: if_splits)
qed

theorem all_registry_error_is_fatal_witness:
  "fst (all_run ''build'' ''proj'' ''git@github.com:jlewi/kubeflow.git'' False
          registry_down_world) = Inl (V2DiagnosticException 500) \<and>
   builds (snd (all_run ''build'' ''proj'' ''git@github.com:jlewi/kubeflow.git'' False
          registry_down_world)) = []"
proof -
  have h: "fst (all_setup ''git@github.com:jlewi/kubeflow.git'' False registry_down_world) =
        Inr (''abc123'', \<lparr>rname = ''jlewi'', urls = [''git@github.com:jlewi/kubeflow.git'']\<rparr>) \<and>
      registry registry_down_world (candidate ''proj'' registry_down_world) = Diagnostic 500 \<and>
      (500::nat) \<noteq> 404"
    by code_simp
  have b: "builds registry_down_world = []"
    by code_simp
  from all_registry_error_is_fatal
    [of "''git@github.com:jlewi/kubeflow.git''" False registry_down_world "''abc123''"
      "\<lparr>rname = ''jlewi'', urls = [''git@github.com:jlewi/kubeflow.git'']\<rparr>"
      "''proj''" 500 "''build''"]
    h b
  show ?thesis by simp
qed

text \<open>
  C7. As stated the claim fails: with \<^verbatim>\<open>add_github_host\<close> set, the output of
  \<^verbatim>\<open>ssh-keyscan\<close> is appended to \<^verbatim>\<open>known_hosts\<close> before the fork's URL is tested, so a
  file has been written when the run is rejected.
\<close>

theorem all_writes_known_hosts_before_rejecting:
  "fst (all_run ''build'' ''proj'' ''https://github.com/jlewi/kubeflow.git'' True sample_world) =
     Inl ValueError \<and>
   files sample_world ''/root/.ssh/known_hosts'' = None \<and>
   files (snd (all_run ''build'' ''proj'' ''https://github.com/jlewi/kubeflow.git'' True
            sample_world)) ''/root/.ssh/known_hosts'' = Some ''github.com ssh-rsa AAAA''"
  by code_simp

text \<open>
  C7, amended. When the fork's URL does not start with \<^verbatim>\<open>git@github.com\<close>, the run ends
  with \<^verbatim>\<open>ValueError\<close>. Before that it has activated the service account, run \<^verbatim>\<open>git log\<close>
  unless the revision was memoised, and, with \<^verbatim>\<open>add_github_host\<close> set, run
  \<^verbatim>\<open>ssh-keyscan\<close> and appended its output to \<^verbatim>\<open>known_hosts\<close>; nothing else: no remote
  is added, no manifest is fetched, no image is built, the prototype file is not written,
  no branch is checked out, and nothing is committed, pushed or requested.
\<close>

theorem all_rejects_fork_url:
  fixes build_project registry_project remote_fork :: string
    and add_github_host :: bool and w :: world
  defines "w' \<equiv> snd (all_run build_project registry_project remote_fork add_github_host w)"
  assumes "\<not> startswith remote_fork ''git@github.com''"
  shows "fst (all_run build_project registry_project remote_fork add_github_host w) =
           Inl ValueError \<and>
         trace w' =
           trace w @ [ActivateServiceAccount] @
             (case cached_commit w of Some (c # cs) \<Rightarrow> [] | _ \<Rightarrow> [GitLog]) @
             (if add_github_host then [SshKeyscan] else []) \<and>
         files w' =
           (if add_github_host then
              (files w)(known_hosts_file w \<mapsto>
                (case files w (known_hosts_file w) of None \<Rightarrow> [] | Some t \<Rightarrow> t) @
                  keyscan_output w)
            else files w) \<and>
         files w' (prototype_file w) = files w (prototype_file w) \<and>
         remotes w' = remotes w \<and> active_branch w' = active_branch w \<and>
         branches w' = branches w"
proof -
  obtain commit w2 where lc: "last_commit (emit ActivateServiceAccount w) = (commit, w2)"
    by (cases "last_commit (emit ActivateServiceAccount w)")
  have w2: "w2 = snd (last_commit (emit ActivateServiceAccount w))"
    by (simp add: lc)
  have kh: "known_hosts_file w2 = known_hosts_file w"
    by (simp add: known_hosts_file_def w2)
  have tr: "trace w2 = trace w @ [ActivateServiceAccount] @
      (case cached_commit w of Some (c # cs) \<Rightarrow> [] | _ \<Rightarrow> [GitLog])"
    by (simp add: w2 last_commit_trace)
  have fl: "files w2 = files w" "remotes w2 = remotes w" "active_branch w2 = active_branch w"
    "branches w2 = branches w" "keyscan_output w2 = keyscan_output w" "home w2 = home w"
    by (simp_all add: w2)
  have run: "all_run build_project registry_project remote_fork add_github_host w =
      (Inl ValueError,
       if add_github_host then
         (emit SshKeyscan w2)\<lparr>files := (files w)(known_hosts_file w \<mapsto>
            (case files w (known_hosts_file w) of None \<Rightarrow> [] | Some t \<Rightarrow> t) @ keyscan_output w)\<rparr>
       else w2)"
    using assms(2)
    by (simp add: all_run_def all_setup_def lc Let_def known_hosts_file_def fl)
  show ?thesis
    unfolding w'_def run
    using known_hosts_not_prototype [of w w] by (simp add: tr fl)
qed


theorem all_rejects_fork_url_witness:
  "fst (all_run ''build'' ''proj'' ''https://github.com/jlewi/kubeflow.git'' False sample_world) =
     Inl ValueError \<and>
   trace (snd (all_run ''build'' ''proj'' ''https://github.com/jlewi/kubeflow.git'' False
            sample_world)) = [ActivateServiceAccount, GitLog] \<and>
   files (snd (all_run ''build'' ''proj'' ''https://github.com/jlewi/kubeflow.git'' False
            sample_world)) = files sample_world \<and>
   remotes (snd (all_run ''build'' ''proj'' ''https://github.com/jlewi/kubeflow.git'' False
            sample_world)) = []"
proof -
  have h: "\<not> startswith ''https://github.com/jlewi/kubeflow.git'' ''git@github.com''"
    by code_simp
  have c: "cached_commit sample_world = None" "trace sample_world = []"
    "remotes sample_world = []"
    by (simp_all add: sample_world_def)
  from all_rejects_fork_url [OF h, of "''build''" "''proj''" False sample_world]
  show ?thesis
    by (simp add: c)
qed

text \<open>
  C4. Let the run have passed the test of the fork's URL. When the manifest fetch for the
  candidate reference \<^verbatim>\<open>gcr.io/<project>/jupyter-web-app:<revision>\<close> fails with status 404,
  the run invokes the build exactly once, with the revision as its tag, and when the
  build's output document has the field \<^verbatim>\<open>image\<close>, that field is the image handed to the
  rest of the run. When the manifest is found, the run invokes no build and the rest of
  the run gets the candidate reference.
\<close>

theorem all_image_resolution:
  assumes "fst (all_setup remote_fork add_github_host w) = Inr (commit, r)"
  shows "(registry w (candidate registry_project w) = Diagnostic 404 \<longrightarrow>
            builds (snd (all_run build_project registry_project remote_fork add_github_host w)) =
              builds w @ [MakeBuildGcb build_project registry_project (Some commit)] \<and>
            (\<forall>data built. gcb_build w = Output data \<and> data ''image'' = Some built \<longrightarrow>
               fst (all_image build_project registry_project
                      (snd (all_setup remote_fork add_github_host w))) = Inr built \<and>
               all_run build_project registry_project remote_fork add_github_host w =
                 all_publish commit r built
                   (snd (all_image build_project registry_project
                           (snd (all_setup remote_fork add_github_host w)))))) \<and>
         (\<forall>digest. registry w (candidate registry_project w) = Found digest \<longrightarrow>
            builds (snd (all_run build_project registry_project remote_fork add_github_host w)) =
              builds w \<and>
            fst (all_image build_project registry_project
                   (snd (all_setup remote_fork add_github_host w))) =
              Inr (candidate registry_project w) \<and>
            all_run build_project registry_project remote_fork add_github_host w =
              all_publish commit r (candidate registry_project w)
                (snd (all_image build_project registry_project
                        (snd (all_setup remote_fork add_github_host w)))))"
proof -
  let ?w1 = "snd (all_setup remote_fork add_github_host w)"
  from all_setup_Inr [OF assms]
  have ok: "startswith remote_fork ''git@github.com''" and commit: "commit = fst (last_commit w)"
    by simp_all
  have ran: "\<not> isl (fst (all_setup remote_fork add_github_host w))"
    by (simp add: assms)
  have reg: "registry ?w1 = registry w" and cand: "candidate registry_project ?w1 =
      candidate registry_project w" and gcb: "gcb_build ?w1 = gcb_build w"
    by (simp_all add: all_setup_fields all_setup_commit)
  have run: "all_run build_project registry_project remote_fork add_github_host w =
      all_publish commit r img (snd (all_image build_project registry_project ?w1))"
    if "fst (all_image build_project registry_project ?w1) = Inr img" for img
    using that assms by (simp add: all_run_eq)
  have built: "fst (all_image build_project registry_project ?w1) = Inr built"
    if "registry w (candidate registry_project w) = Diagnostic 404"
      "gcb_build w = Output data" "data ''image'' = Some built" for data built
    using that by (simp add: all_image_eq Let_def reg cand build_image_result gcb)
  have found: "fst (all_image build_project registry_project ?w1) =
      Inr (candidate registry_project w)"
    if "registry w (candidate registry_project w) = Found digest" for digest
    using that by (simp add: all_image_eq Let_def reg cand)
  have b404: "builds (snd (all_run build_project registry_project remote_fork add_github_host w)) =
      builds w @ [MakeBuildGcb build_project registry_project (Some commit)]"
    if "registry w (candidate registry_project w) = Diagnostic 404"
    using that ran commit by (simp add: all_run_builds)
  have bfound: "builds (snd (all_run build_project registry_project remote_fork add_github_host w)) =
      builds w"
    if "registry w (candidate registry_project w) = Found digest" for digest
    using that by (simp add: all_run_builds)
  show ?thesis
  proof (intro conjI impI allI)
    fix data built
    assume "registry w (candidate registry_project w) = Diagnostic 404"
      and "gcb_build w = Output data \<and> data ''image'' = Some built"
    then have i: "fst (all_image build_project registry_project ?w1) = Inr built"
      using built by blast
    then show "fst (all_image build_project registry_project ?w1) = Inr built" .
    from i show "all_run build_project registry_project remote_fork add_github_host w =
        all_publish commit r built (snd (all_image build_project registry_project ?w1))"
      by (rule run)
  next
    fix digest
    assume "registry w (candidate registry_project w) = Found digest"
    then have i: "fst (all_image build_project registry_project ?w1) =
        Inr (candidate registry_project w)"
      by (rule found)
    then show "fst (all_image build_project registry_project ?w1) =
        Inr (candidate registry_project w)" .
    from i show "all_run build_project registry_project remote_fork add_github_host w =
        all_publish commit r (candidate registry_project w)
          (snd (all_image build_project registry_project ?w1))"
      by (rule run)
  qed (simp_all add: b404 bfound)
qed

theorem all_image_resolution_witness:
  "builds (snd (all_run ''build'' ''proj'' ''git@github.com:jlewi/kubeflow.git'' False
             sample_world)) = [MakeBuildGcb ''build'' ''proj'' (Some ''abc123'')] \<and>
   fst (all_image ''build'' ''proj''
          (snd (all_setup ''git@github.com:jlewi/kubeflow.git'' False sample_world))) =
     Inr ''gcr.io/proj/jupyter-web-app:abc123'' \<and>
   all_run ''build'' ''proj'' ''git@github.com:jlewi/kubeflow.git'' False sample_world =
     all_publish ''abc123''
       \<lparr>rname = ''jlewi'', urls = [''git@github.com:jlewi/kubeflow.git'']\<rparr>
       ''gcr.io/proj/jupyter-web-app:abc123''
       (snd (all_image ''build'' ''proj''
               (snd (all_setup ''git@github.com:jlewi/kubeflow.git'' False sample_world))))"
proof -
  have s: "fst (all_setup ''git@github.com:jlewi/kubeflow.git'' False sample_world) =
      Inr (''abc123'', \<lparr>rname = ''jlewi'', urls = [''git@github.com:jlewi/kubeflow.git'']\<rparr>)"
    by code_simp
  have f: "registry sample_world (candidate ''proj'' sample_world) = Diagnostic 404"
    by code_simp
  have g: "gcb_build sample_world = Output [''image'' \<mapsto> ''gcr.io/proj/jupyter-web-app:abc123'']"
    by (simp add: sample_world_def)
  have b: "builds sample_world = []"
    by code_simp
  from all_image_resolution [OF s, of "''proj''" "''build''"] f
  have "builds (snd (all_run ''build'' ''proj'' ''git@github.com:jlewi/kubeflow.git'' False
             sample_world)) = builds sample_world @ [MakeBuildGcb ''build'' ''proj'' (Some ''abc123'')]"
    and "\<forall>data built. gcb_build sample_world = Output data \<and> data ''image'' = Some built \<longrightarrow>
      fst (all_image ''build'' ''proj''
          (snd (all_setup ''git@github.com:jlewi/kubeflow.git'' False sample_world))) = Inr built \<and>
      all_run ''build'' ''proj'' ''git@github.com:jlewi/kubeflow.git'' False sample_world =
        all_publish ''abc123''
          \<lparr>rname = ''jlewi'', urls = [''git@github.com:jlewi/kubeflow.git'']\<rparr> built
          (snd (all_image ''build'' ''proj''
               (snd (all_setup ''git@github.com:jlewi/kubeflow.git'' False sample_world))))"
    by blast+
  with g b show ?thesis
    by simp
qed

lemma prototype_file_cong: "root_dir w' = root_dir w \<Longrightarrow> prototype_file w' = prototype_file w"
  by (simp add: prototype_file_def)

text \<open>
  C1. Let the run have resolved an image, and let the previous value that patching the
  prototype file, as read in text mode, records for \<^verbatim>\<open>image\<close> be that image. Then \<^verbatim>\<open>update_prototype\<close> returns
  \<^verbatim>\<open>None\<close> and leaves the world, with the prototype file, as it is; the run returns there;
  and the run has staged, committed and pushed nothing and has neither listed nor created
  a pull request.
\<close>

theorem all_stops_when_image_is_current:
  assumes "fst (all_setup remote_fork add_github_host w) = Inr (commit, r)"
    and "fst (all_image build_project registry_project
                (snd (all_setup remote_fork add_github_host w))) = Inr img"
    and "files w (prototype_file w) = Some content"
    and "snd (replace_parameters (split CHR 0x0A (universal_newlines content))
           [''image'' \<mapsto> img]) ''image'' = Some img"
  shows "update_prototype img
           (snd (all_image build_project registry_project
                   (snd (all_setup remote_fork add_github_host w)))) =
           (Inr None,
            snd (all_image build_project registry_project
                   (snd (all_setup remote_fork add_github_host w)))) \<and>
         all_run build_project registry_project remote_fork add_github_host w =
           (Inr (),
            snd (all_image build_project registry_project
                   (snd (all_setup remote_fork add_github_host w)))) \<and>
         files (snd (all_run build_project registry_project remote_fork add_github_host w))
           (prototype_file w) = Some content \<and>
         published (snd (all_run build_project registry_project remote_fork add_github_host w)) =
           published w \<and>
         pr_queries (snd (all_run build_project registry_project remote_fork add_github_host w)) =
           pr_queries w"
proof -
  let ?w1 = "snd (all_setup remote_fork add_github_host w)"
  let ?w2 = "snd (all_image build_project registry_project ?w1)"
  have pf: "prototype_file ?w2 = prototype_file w"
    by (intro prototype_file_cong) (simp add: all_image_fields all_setup_fields)
  have content: "files ?w2 (prototype_file ?w2) = Some content"
    using assms(3) by (simp add: pf all_image_fields all_setup_fields)
  from content assms(4) have up: "update_prototype img ?w2 = (Inr None, ?w2)"
    by (rule update_prototype_same)
  then have pub: "all_publish commit r img ?w2 = (Inr (), ?w2)"
    by (simp add: all_publish_def)
  have run: "all_run build_project registry_project remote_fork add_github_host w = (Inr (), ?w2)"
    using assms(1,2) pub by (simp add: all_run_eq)
  have "published ?w2 = published ?w1"
    unfolding published_def by (rule all_image_filter) (simp_all, case_tac a, simp_all)
  also have "\<dots> = published w"
    unfolding published_def by (rule all_setup_trace) simp_all
  finally have p: "published ?w2 = published w" .
  have "pr_queries ?w2 = pr_queries ?w1"
    unfolding pr_queries_def by (rule all_image_filter) (simp_all, case_tac a, simp_all)
  also have "\<dots> = pr_queries w"
    unfolding pr_queries_def by (rule all_setup_trace) simp_all
  finally have q: "pr_queries ?w2 = pr_queries w" .
  from up run content p q show ?thesis
    by (simp add: pf)
qed

theorem all_stops_when_image_is_current_witness:
  "all_run ''build'' ''proj'' ''git@github.com:jlewi/kubeflow.git'' False up_to_date_world =
     (Inr (),
      snd (all_image ''build'' ''proj''
             (snd (all_setup ''git@github.com:jlewi/kubeflow.git'' False up_to_date_world)))) \<and>
   published (snd (all_run ''build'' ''proj'' ''git@github.com:jlewi/kubeflow.git'' False
                     up_to_date_world)) = [] \<and>
   pr_queries (snd (all_run ''build'' ''proj'' ''git@github.com:jlewi/kubeflow.git'' False
                     up_to_date_world)) = []"
proof -
  let ?content = "''// @optionalParam image string gcr.io/proj/jupyter-web-app:abc123 The image''"
  have s: "fst (all_setup ''git@github.com:jlewi/kubeflow.git'' False up_to_date_world) =
      Inr (''abc123'', \<lparr>rname = ''jlewi'', urls = [''git@github.com:jlewi/kubeflow.git'']\<rparr>)"
    by code_simp
  have i: "fst (all_image ''build'' ''proj''
      (snd (all_setup ''git@github.com:jlewi/kubeflow.git'' False up_to_date_world))) =
      Inr ''gcr.io/proj/jupyter-web-app:abc123''"
    by code_simp
  have f: "files up_to_date_world (prototype_file up_to_date_world) = Some ?content"
    by code_simp
  have o: "snd (replace_parameters (split CHR 0x0A (universal_newlines ?content))
      [''image'' \<mapsto> ''gcr.io/proj/jupyter-web-app:abc123'']) ''image'' =
      Some ''gcr.io/proj/jupyter-web-app:abc123''"
    by code_simp
  have e: "published up_to_date_world = []" "pr_queries up_to_date_world = []"
    by code_simp+
  note t = all_stops_when_image_is_current [OF s i f o]
  from t have a: "all_run ''build'' ''proj'' ''git@github.com:jlewi/kubeflow.git'' False
      up_to_date_world =
     (Inr (),
      snd (all_image ''build'' ''proj''
             (snd (all_setup ''git@github.com:jlewi/kubeflow.git'' False up_to_date_world))))"
    by (elim conjE)
  from t have "published (snd (all_run ''build'' ''proj'' ''git@github.com:jlewi/kubeflow.git''
      False up_to_date_world)) = published up_to_date_world"
    by (elim conjE)
  then have b: "published (snd (all_run ''build'' ''proj'' ''git@github.com:jlewi/kubeflow.git''
      False up_to_date_world)) = []"
    by (simp only: e)
  from t have "pr_queries (snd (all_run ''build'' ''proj'' ''git@github.com:jlewi/kubeflow.git''
      False up_to_date_world)) = pr_queries up_to_date_world"
    by (elim conjE)
  then have c: "pr_queries (snd (all_run ''build'' ''proj'' ''git@github.com:jlewi/kubeflow.git''
      False up_to_date_world)) = []"
    by (simp only: e)
  from a b c show ?thesis
    by (intro conjI)
qed

text \<open>
  C2. As stated the claim fails on the branch: the branch of the revision is created (or
  checked out) before the open pull requests are listed, so a run that finds the pull
  request has already created the branch.
\<close>

theorem all_creates_branch_before_pr_check:
  "pr_title ''abc123'' \<in> set (listed_titles (pr_list_output pr_open_world)) \<and>
   branches pr_open_world = [''master''] \<and>
   fst (all_run ''build'' ''proj'' ''git@github.com:jlewi/kubeflow.git'' False pr_open_world) =
     Inr () \<and>
   branches (snd (all_run ''build'' ''proj'' ''git@github.com:jlewi/kubeflow.git'' False
                    pr_open_world)) = [''master'', ''update_jupyter_abc123''] \<and>
   trace (snd (all_run ''build'' ''proj'' ''git@github.com:jlewi/kubeflow.git'' False
                 pr_open_world)) =
     [ActivateServiceAccount, GitLog,
      CreateRemote ''jlewi'' ''git@github.com:jlewi/kubeflow.git'',
      FetchManifest ''gcr.io/proj/jupyter-web-app:abc123'',
      MakeBuildGcb ''build'' ''proj'' (Some ''abc123''),
      GitCheckoutNew ''update_jupyter_abc123'', HubPrList]"
  by code_simp

text \<open>
  C2, amended. When the listing of the open pull requests has a record whose title is
  the title built from the revision, the run stages, commits and pushes nothing and
  creates no pull request.
\<close>

theorem all_publishes_nothing_when_pr_listed:
  assumes "pr_title (fst (last_commit w)) \<in> set (listed_titles (pr_list_output w))"
  shows "published (snd (all_run build_project registry_project remote_fork add_github_host w)) =
           published w"
proof (cases "fst (all_setup remote_fork add_github_host w)")
  case (Inl e)
  then show ?thesis
    by (simp add: all_run_eq published_def all_setup_trace)
next
  case (Inr p)
  let ?w1 = "snd (all_setup remote_fork add_github_host w)"
  let ?w2 = "snd (all_image build_project registry_project ?w1)"
  let ?commit = "fst (last_commit w)"
  obtain c r where p: "p = (c, r)"
    by (cases p)
  from Inr p have s: "fst (all_setup remote_fork add_github_host w) = Inr (?commit, r)"
    using all_setup_Inr(2) [of remote_fork add_github_host w c r] by simp
  have "published ?w2 = published ?w1"
    unfolding published_def by (rule all_image_filter) (simp_all, case_tac a, simp_all)
  also have "\<dots> = published w"
    unfolding published_def by (rule all_setup_trace) simp_all
  finally have p: "published ?w2 = published w" .
  have lc1: "fst (last_commit ?w1) = ?commit"
    by (rule all_setup_commit)
  have c2: "cached_commit ?w2 = Some ?commit"
    by (simp add: all_image_fields lc1)
  have g2: "git_log_output ?w2 = git_log_output w" "pr_list_output ?w2 = pr_list_output w"
    by (simp_all add: all_image_fields all_setup_fields)
  have e2: "?commit = [] \<longrightarrow> strip CHR 0x22 (git_log_output ?w2) = []"
    using last_commit_empty [of w] by (simp add: g2)
  have l2: "pr_title ?commit \<in> set (listed_titles (pr_list_output ?w2))"
    using assms by (simp add: g2)
  have "published (snd (all_publish ?commit r img ?w2)) = published ?w2" for img
    using c2 e2 l2 by (rule all_publish_listed)
  then show ?thesis
    by (simp add: all_run_eq s p split: sum.splits)
qed

theorem all_publishes_nothing_when_pr_listed_witness:
  "published (snd (all_run ''build'' ''proj'' ''git@github.com:jlewi/kubeflow.git'' False
                     pr_open_world)) = []"
proof -
  have l: "pr_title (fst (last_commit pr_open_world)) \<in>
      set (listed_titles (pr_list_output pr_open_world))"
    by code_simp
  have e: "published pr_open_world = []"
    by code_simp
  from all_publishes_nothing_when_pr_listed [OF l, of "''build''" "''proj''"
      "''git@github.com:jlewi/kubeflow.git''" False] e
  show ?thesis by simp
qed

end
